theory Spec2Isabelle
  imports Complex_Main "HOL-Library.Log_Nat"
begin

section \<open>Python strings\<close>

text \<open>
  A Python \<open>str\<close> is modelled as a \<open>string\<close> whose characters are code points below 256.
  \<open>is_space\<close> is \<open>str.isspace\<close> on that range; it is also what \<open>\s\<close> matches in the
  \<open>re\<close> module and what \<open>str.strip()\<close> removes.
\<close>

definition is_space :: "char \<Rightarrow> bool" where
  "is_space c = (of_char c \<in> {9, 10, 11, 12, 13, 28, 29, 30, 31, 32, 133, 160 :: nat})"

definition py_strip :: "string \<Rightarrow> string" where
  "py_strip s = rev (dropWhile is_space (rev (dropWhile is_space s)))"

text \<open>\<open>sep.join(xs)\<close>\<close>

fun py_join :: "string \<Rightarrow> string list \<Rightarrow> string" where
  "py_join sep [] = []"
| "py_join sep [x] = x"
| "py_join sep (x # y # ys) = x @ sep @ py_join sep (y # ys)"

text \<open>\<open>s.find(sub)\<close>: the lowest index where \<open>sub\<close> occurs in \<open>s\<close>, or \<open>-1\<close>.\<close>

fun find_from :: "nat \<Rightarrow> string \<Rightarrow> string \<Rightarrow> int" where
  "find_from i sub [] = (if sub = [] then int i else - 1)"
| "find_from i sub (c # cs) =
     (if take (length sub) (c # cs) = sub then int i else find_from (Suc i) sub cs)"

definition py_find :: "string \<Rightarrow> string \<Rightarrow> int" where
  "py_find s sub = find_from 0 sub s"

text \<open>\<open>xs[k:]\<close> for a possibly negative \<open>k\<close>.\<close>

definition slice_from :: "int \<Rightarrow> 'a list \<Rightarrow> 'a list" where
  "slice_from k xs =
     (if k < 0 then drop (nat (max 0 (int (length xs) + k))) xs else drop (nat k) xs)"

text \<open>
  \<open>re.split(r'(?<=[.!?])\s+', text)\<close>: the text is cut at every maximal run of white space
  that directly follows one of \<open>.\<close>, \<open>!\<close>, \<open>?\<close>. The flag says whether the previous
  character is such a terminator; \<open>cur\<close> is the current piece, reversed.
\<close>

definition is_terminator :: "char \<Rightarrow> bool" where
  "is_terminator c = (c = CHR ''.'' \<or> c = CHR ''!'' \<or> c = CHR ''?'')"

function split_sentences :: "bool \<Rightarrow> string \<Rightarrow> string \<Rightarrow> string list" where
  "split_sentences after_term cur [] = [rev cur]"
| "split_sentences after_term cur (c # cs) =
     (if after_term \<and> is_space c
      then rev cur # split_sentences False [] (dropWhile is_space cs)
      else split_sentences (is_terminator c) (c # cur) cs)"
  by pat_completeness auto
termination
  by (relation "measure (\<lambda>(b, cur, s). length s)")
     (auto simp: length_dropWhile_le less_Suc_eq_le)

definition re_split :: "string \<Rightarrow> string list" where
  "re_split s = split_sentences False [] s"

section \<open>Chunks\<close>

text \<open>
  A chunk is a Python dict. The keys every chunker writes are \<open>text\<close>, \<open>chunk_id\<close> and
  \<open>is_last\<close>; \<open>language\<close>, \<open>rating\<close> and \<open>date\<close> are keys the orchestrator looks up
  with \<open>dict.get\<close> (\<open>None\<close> is an absent key). The position keys depend on the mode.
\<close>

record chunk =
  "text" :: string
  chunk_id :: int
  is_last :: bool
  language :: "string option"
  rating :: "string option"
  date :: "string option"

record text_chunk = chunk +
  start :: int
  "end" :: int

record line_chunk = text_chunk +
  line_number :: int

record csv_chunk = chunk +
  start_row :: int
  end_row :: int
  format :: string
  headers :: "string list"

section \<open>Sentence mode: \<open>chunk_text\<close>\<close>

definition mk_text_chunk :: "string \<Rightarrow> string \<Rightarrow> int \<Rightarrow> bool \<Rightarrow> text_chunk" where
  "mk_text_chunk source t cid lst =
     \<lparr>text = t, chunk_id = cid, is_last = lst, language = None, rating = None, date = None,
      start = py_find source t, end = py_find source t + int (length t)\<rparr>"

record chunker_state =
  chunks :: "text_chunk list"
  current_chunk :: "string list"
  current_length :: int
  next_id :: int

definition init_state :: chunker_state where
  "init_state = \<lparr>chunks = [], current_chunk = [], current_length = 0, next_id = 0\<rparr>"

text \<open>One iteration of the loop over the sentences (chunking.py, lines 50 to 73).\<close>

definition sentence_step :: "string \<Rightarrow> int \<Rightarrow> int \<Rightarrow> chunker_state \<Rightarrow> string \<Rightarrow> chunker_state" where
  "sentence_step source chunk_size overlap st raw =
     (let sentence = py_strip raw; cur = current_chunk st in
      if sentence = [] then st
      else if current_length st + int (length sentence) > chunk_size \<and> cur \<noteq> [] then
        (let overlap_text = py_join '' ''
               (if int (length cur) > overlap div 50 then slice_from ((- overlap) div 50) cur
                else cur);
             cur' = (if overlap_text \<noteq> sentence then [overlap_text, sentence] else [sentence])
         in \<lparr>chunks = chunks st @ [mk_text_chunk source (py_join '' '' cur) (next_id st) False],
             current_chunk = cur',
             current_length = int (length (py_join '' '' cur')),
             next_id = next_id st + 1\<rparr>)
      else st\<lparr>current_chunk := cur @ [sentence],
               current_length := current_length st + int (length sentence) + 1\<rparr>)"

definition sentence_loop :: "string \<Rightarrow> int \<Rightarrow> int \<Rightarrow> string list \<Rightarrow> chunker_state" where
  "sentence_loop source chunk_size overlap sentences =
     foldl (sentence_step source chunk_size overlap) init_state sentences"

text \<open>Lines 75 to 85: the running chunk is appended if it meets the minimum size.\<close>

definition flush_final :: "string \<Rightarrow> int \<Rightarrow> chunker_state \<Rightarrow> text_chunk list" where
  "flush_final source min_chunk_size st =
     (if current_chunk st \<noteq> [] \<and> int (length (py_join '' '' (current_chunk st))) \<ge> min_chunk_size
      then chunks st @ [mk_text_chunk source (py_join '' '' (current_chunk st)) (next_id st) True]
      else chunks st)"

text \<open>Lines 87 to 89: \<open>chunks[-1]['is_last'] = True\<close> when there is a chunk.\<close>

definition mark_last :: "('a chunk_scheme) list \<Rightarrow> ('a chunk_scheme) list" where
  "mark_last cs = (if cs = [] then [] else butlast cs @ [(last cs)\<lparr>is_last := True\<rparr>])"

definition chunk_text :: "string \<Rightarrow> int \<Rightarrow> int \<Rightarrow> int \<Rightarrow> text_chunk list" where
  "chunk_text raw chunk_size overlap min_chunk_size =
     (if raw = [] \<or> py_strip raw = [] then []
      else
        (let source = py_strip raw in
         if int (length source) \<le> chunk_size then
           [\<lparr>text = source, chunk_id = 0, is_last = True, language = None, rating = None,
             date = None, start = 0, end = int (length source)\<rparr>]
         else
           mark_last (flush_final source min_chunk_size
             (sentence_loop source chunk_size overlap (re_split source)))))"

section \<open>Line mode: \<open>process_text_file\<close>\<close>

text \<open>
  The argument is the result of \<open>f.readlines()\<close>; \<open>n\<close> is \<open>len(lines)\<close> and \<open>i\<close> the
  index \<open>enumerate\<close> gives the line.
\<close>

fun text_file_loop :: "nat \<Rightarrow> nat \<Rightarrow> string list \<Rightarrow> line_chunk list" where
  "text_file_loop n i [] = []"
| "text_file_loop n i (raw # rest) =
     (let line = py_strip raw in
      (if line \<noteq> [] then
         [\<lparr>text = line, chunk_id = int i, is_last = (int i = int n - 1), language = None,
           rating = None, date = None, start = 0, end = int (length line),
           line_number = int i + 1\<rparr>]
       else []) @ text_file_loop n (Suc i) rest)"

definition process_text_file :: "string list \<Rightarrow> line_chunk list" where
  "process_text_file lines = text_file_loop (length lines) 0 lines"

section \<open>CSV mode: \<open>process_csv_file\<close>\<close>

text \<open>
  A row of the \<open>csv.DictReader\<close> is the list of its items, each key and value already
  formatted as the f-string formats them. \<open>fieldnames\<close> is \<open>reader.fieldnames\<close>.
\<close>

type_synonym csv_row = "(string \<times> string) list"

definition row_text :: "csv_row \<Rightarrow> string" where
  "row_text row = py_join '', '' (map (\<lambda>(k, v). k @ '': '' @ v) row)"

definition header_list :: "string list option \<Rightarrow> string list" where
  "header_list fieldnames = (case fieldnames of None \<Rightarrow> [] | Some fs \<Rightarrow> fs)"

definition mk_csv_chunk ::
  "string list option \<Rightarrow> string list \<Rightarrow> int \<Rightarrow> int \<Rightarrow> int \<Rightarrow> bool \<Rightarrow> csv_chunk" where
  "mk_csv_chunk fieldnames cur cid s e lst =
     \<lparr>text = py_join [CHR 0x0A] cur, chunk_id = cid, is_last = lst, language = None,
      rating = None, date = None, start_row = s, end_row = e, format = ''csv'',
      headers = header_list fieldnames\<rparr>"

record csv_state =
  csv_chunks :: "csv_chunk list"
  csv_current :: "string list"
  csv_length :: int
  csv_next_id :: int

definition csv_init :: csv_state where
  "csv_init = \<lparr>csv_chunks = [], csv_current = [], csv_length = 0, csv_next_id = 0\<rparr>"

text \<open>One iteration of the loop over the rows (lines 160 to 181), at index \<open>i\<close>.\<close>

definition csv_step :: "string list option \<Rightarrow> int \<Rightarrow> nat \<Rightarrow> csv_row \<Rightarrow> csv_state \<Rightarrow> csv_state" where
  "csv_step fieldnames chunk_size i row st =
     (let rt = row_text row; cur = csv_current st in
      if csv_length st + int (length rt) > chunk_size \<and> cur \<noteq> [] then
        \<lparr>csv_chunks = csv_chunks st @
           [mk_csv_chunk fieldnames cur (csv_next_id st) (int i - int (length cur)) (int i - 1) False],
         csv_current = [rt],
         csv_length = int (length rt),
         csv_next_id = csv_next_id st + 1\<rparr>
      else st\<lparr>csv_current := cur @ [rt], csv_length := csv_length st + int (length rt) + 1\<rparr>)"

fun csv_loop :: "string list option \<Rightarrow> int \<Rightarrow> nat \<Rightarrow> csv_row list \<Rightarrow> csv_state \<Rightarrow> csv_state" where
  "csv_loop fieldnames chunk_size i [] st = st"
| "csv_loop fieldnames chunk_size i (row # rows) st =
     csv_loop fieldnames chunk_size (Suc i) rows (csv_step fieldnames chunk_size i row st)"

text \<open>
  Lines 183 to 194. After the loop \<open>i\<close> is the index of the last row, and it is a local
  variable only if there was a row.
\<close>

definition csv_flush :: "string list option \<Rightarrow> nat \<Rightarrow> csv_state \<Rightarrow> csv_chunk list" where
  "csv_flush fieldnames n st =
     (let cur = csv_current st in
      if cur \<noteq> [] then
        csv_chunks st @
          [mk_csv_chunk fieldnames cur (csv_next_id st)
             (if n \<noteq> 0 then (int (n - 1) + 1) - int (length cur) else 0)
             (if n \<noteq> 0 then int (n - 1) else int (length cur) - 1)
             True]
      else csv_chunks st)"

definition process_csv_file :: "string list option \<Rightarrow> csv_row list \<Rightarrow> int \<Rightarrow> csv_chunk list" where
  "process_csv_file fieldnames rows chunk_size =
     csv_flush fieldnames (length rows) (csv_loop fieldnames chunk_size 0 rows csv_init)"

section \<open>Collaborators\<close>

text \<open>
  Python exceptions are values: a function that can raise returns \<open>exn + 'a\<close>, with \<open>Inl\<close>
  the exception. \<open>str_exn\<close> is \<open>str(e)\<close>.
\<close>

datatype exn = LangDetectException string | Exception string

fun str_exn :: "exn \<Rightarrow> string" where
  "str_exn (LangDetectException m) = m"
| "str_exn (Exception m) = m"

text \<open>
  The third-party calls the services make, each of which may raise:
  \<open>langdetect.detect\<close>, \<open>GoogleTranslator(source, target).translate(text)\<close> (which may
  return \<open>None\<close>) and \<open>TextBlob(text).sentiment\<close> (polarity and subjectivity, two
  floats).
\<close>

record libs =
  detect :: "string \<Rightarrow> exn + string"
  translate :: "string \<Rightarrow> string \<Rightarrow> string \<Rightarrow> exn + string option"
  text_blob :: "string \<Rightarrow> exn + rat \<times> rat"

text \<open>\<open>str.lower()\<close> on code points below 256.\<close>

definition lower_char :: "char \<Rightarrow> char" where
  "lower_char c =
     (let n = (of_char c :: nat) in
      if (65 \<le> n \<and> n \<le> 90) \<or> (192 \<le> n \<and> n \<le> 222 \<and> n \<noteq> 215) then char_of (n + 32) else c)"

definition py_lower :: "string \<Rightarrow> string" where
  "py_lower s = map lower_char s"

text \<open>\<open>x or d\<close> for an optional string \<open>x\<close>.\<close>

definition or_else :: "string option \<Rightarrow> string \<Rightarrow> string" where
  "or_else x d = (case x of None \<Rightarrow> d | Some s \<Rightarrow> if s = [] then d else s)"

subsection \<open>Python floats\<close>

text \<open>
  A Python float is an IEEE 754 binary64 number, modelled by the rational number it is.
  The result of an arithmetic operation is the exact result rounded to the nearest
  binary64 number, ties to the even significand: \<open>fl\<close>. A binary64 number has a
  significand of 53 bits; below \<open>2 ^ -1022\<close> the numbers are the multiples of
  \<open>2 ^ -1074\<close>. Overflow is left out: no number here is larger than a few hundred.
\<close>

text \<open>To the nearest integer, ties to even.\<close>

definition round_half_even :: "rat \<Rightarrow> int" where
  "round_half_even x =
     (let f = \<lfloor>x\<rfloor>; d = x - of_int f in
      if d < 1 / 2 then f else if 1 / 2 < d then f + 1 else if even f then f else f + 1)"

text \<open>For \<open>x > 0\<close>, the exponent \<open>e\<close> with \<open>2 ^ e \<le> x < 2 ^ (e + 1)\<close>.\<close>

definition floor_log2 :: "rat \<Rightarrow> int" where
  "floor_log2 x =
     (case quotient_of x of (p, q) \<Rightarrow>
        (let e = bitlen p - bitlen q in if 2 powi e \<le> x then e else e - 1))"

definition fl :: "rat \<Rightarrow> rat" where
  "fl x =
     (if x = 0 then 0
      else
        (let ulp = 2 powi (max (floor_log2 \<bar>x\<bar>) (- 1022) - 52)
         in sgn x * (of_int (round_half_even (\<bar>x\<bar> / ulp)) * ulp)))"

text \<open>
  \<open>round(x, ndigits)\<close> on a float: the exact value of \<open>x\<close> is rounded to \<open>ndigits\<close>
  decimals, ties to even, and the decimal is converted to the nearest float.
\<close>

definition py_round :: "rat \<Rightarrow> nat \<Rightarrow> rat" where
  "py_round x ndigits = fl (of_int (round_half_even (x * 10 ^ ndigits)) / 10 ^ ndigits)"

text \<open>\<open>s.split()\<close>: the maximal runs of characters that are not white space.\<close>

function py_split :: "string \<Rightarrow> string list" where
  "py_split s =
     (let t = dropWhile is_space s in
      if t = [] then []
      else takeWhile (\<lambda>c. \<not> is_space c) t # py_split (dropWhile (\<lambda>c. \<not> is_space c) t))"
  by pat_completeness auto
termination
proof (relation "measure length")
  fix s t :: string
  assume t: "t = dropWhile is_space s" and ne: "t \<noteq> []"
  from ne have "\<not> is_space (hd t)" unfolding t by (rule hd_dropWhile)
  with ne have "length (dropWhile (\<lambda>c. \<not> is_space c) t) < length t"
    by (cases t) (simp_all add: le_imp_less_Suc length_dropWhile_le)
  moreover have "length t \<le> length s" unfolding t by (rule length_dropWhile_le)
  ultimately show "(dropWhile (\<lambda>c. \<not> is_space c) t, s) \<in> measure length" by simp
qed simp

declare py_split.simps [simp del]

subsection \<open>language.py: \<open>clean_text\<close>\<close>

text \<open>
  The length of the match of \<open>https?://\S+|www\.\S+\<close> at the head of the string, 0 when
  there is none: one of the three prefixes, followed by at least one character that is not
  white space, up to the next white space.
\<close>

definition match_after :: "string \<Rightarrow> string \<Rightarrow> nat" where
  "match_after prefix s =
     (let rest = takeWhile (\<lambda>c. \<not> is_space c) (drop (length prefix) s) in
      if take (length prefix) s = prefix \<and> rest \<noteq> [] then length prefix + length rest else 0)"

definition url_match :: "string \<Rightarrow> nat" where
  "url_match s =
     (if match_after ''https://'' s \<noteq> 0 then match_after ''https://'' s
      else if match_after ''http://'' s \<noteq> 0 then match_after ''http://'' s
      else match_after ''www.'' s)"

text \<open>\<open>re.sub(r'https?://\S+|www\.\S+', '', text)\<close>\<close>

function remove_urls :: "string \<Rightarrow> string" where
  "remove_urls [] = []"
| "remove_urls (c # cs) =
     (if url_match (c # cs) = 0 then c # remove_urls cs
      else remove_urls (drop (url_match (c # cs)) (c # cs)))"
  by pat_completeness auto
termination
  by (relation "measure length") auto

text \<open>\<open>\w\<close> on code points below 256.\<close>

definition is_word :: "char \<Rightarrow> bool" where
  "is_word c =
     (let n = (of_char c :: nat) in
      (48 \<le> n \<and> n \<le> 57) \<or> (65 \<le> n \<and> n \<le> 90) \<or> n = 95 \<or> (97 \<le> n \<and> n \<le> 122) \<or>
      n = 170 \<or> n = 178 \<or> n = 179 \<or> n = 181 \<or> n = 185 \<or> n = 186 \<or>
      (188 \<le> n \<and> n \<le> 190) \<or> (192 \<le> n \<and> n \<le> 214) \<or> (216 \<le> n \<and> n \<le> 246) \<or>
      248 \<le> n)"

text \<open>\<open>re.sub(r'[#@]\w+', '', text)\<close>\<close>

function remove_mentions :: "string \<Rightarrow> string" where
  "remove_mentions [] = []"
| "remove_mentions (c # cs) =
     (if (c = CHR ''#'' \<or> c = CHR ''@'') \<and> takeWhile is_word cs \<noteq> []
      then remove_mentions (dropWhile is_word cs)
      else c # remove_mentions cs)"
  by pat_completeness auto
termination
  by (relation "measure length") (auto simp: length_dropWhile_le less_Suc_eq_le)

text \<open>
  The third substitution keeps the letters of the listed ranges and white space and puts a
  space for every other character; below 256 the letters are \<open>a-z\<close>, \<open>A-Z\<close> and the code
  points from 192 on.
\<close>

definition keep_char :: "char \<Rightarrow> bool" where
  "keep_char c =
     (let n = (of_char c :: nat) in
      (65 \<le> n \<and> n \<le> 90) \<or> (97 \<le> n \<and> n \<le> 122) \<or> 192 \<le> n \<or> is_space c)"

definition clean_text :: "string \<Rightarrow> string" where
  "clean_text txt =
     (if txt = [] then []
      else py_strip (py_join '' ''
             (py_split (map (\<lambda>c. if keep_char c then c else CHR '' '')
                (remove_mentions (remove_urls txt))))))"

subsection \<open>language.py: \<open>detect_language\<close>\<close>

definition detect_language :: "libs \<Rightarrow> string \<Rightarrow> string \<Rightarrow> exn + string" where
  "detect_language L txt fallback =
     (if txt = [] \<or> py_strip txt = [] then Inr fallback
      else
        (let cleaned_text = clean_text txt in
         if py_strip cleaned_text = [] then Inr fallback
         else (case detect L cleaned_text of
                 Inl e \<Rightarrow> Inr fallback
               | Inr detected_lang \<Rightarrow> Inr (py_lower detected_lang))))"

subsection \<open>translation.py: \<open>translate_text\<close>\<close>

record translation =
  tr_error :: "string option"
  tr_original_text :: string
  translated_text :: string
  source_lang :: string
  target_lang :: string
  tr_confidence :: "rat option"

text \<open>Lines 35 to 38: the source language the translator is built with.\<close>

definition translator_source :: "string option \<Rightarrow> string" where
  "translator_source source =
     (case source of
        None \<Rightarrow> ''auto''
      | Some s \<Rightarrow> if s \<noteq> [] \<and> s \<noteq> ''auto'' then s else ''auto'')"

definition translate_text :: "libs \<Rightarrow> string \<Rightarrow> string \<Rightarrow> string option \<Rightarrow> exn + translation" where
  "translate_text L txt target source =
     (if txt = [] \<or> py_strip txt = [] then
        Inr \<lparr>tr_error = Some ''Text cannot be empty'', tr_original_text = txt,
             translated_text = txt, source_lang = or_else source ''unknown'',
             target_lang = target, tr_confidence = None\<rparr>
      else
        (case translate L (translator_source source) target txt of
           Inl e \<Rightarrow>
             Inr \<lparr>tr_error = Some (''Translation failed: '' @ str_exn e),
                  tr_original_text = txt, translated_text = txt,
                  source_lang = or_else source ''unknown'', target_lang = target,
                  tr_confidence = None\<rparr>
         | Inr res \<Rightarrow>
             Inr \<lparr>tr_error = None, tr_original_text = txt,
                  translated_text = or_else res txt,
                  source_lang = or_else source ''auto'', target_lang = target,
                  tr_confidence = Some (fl (85 / 100))\<rparr>))"

subsection \<open>sentiment.py: \<open>analyze_sentiment\<close>\<close>

record sentiment_result =
  sr_sentiment :: string
  sr_score :: rat
  sr_polarity :: rat
  sr_subjectivity :: rat
  sr_language :: string
  sr_word_count :: "nat option"
  sr_char_count :: "nat option"
  sr_error :: "string option"

definition analyze_sentiment :: "libs \<Rightarrow> string \<Rightarrow> string \<Rightarrow> exn + sentiment_result" where
  "analyze_sentiment L txt language0 =
     (let lang =
            (if language0 = [] \<or> language0 = ''auto'' then
               (if py_strip txt \<noteq> [] then (case detect L txt of Inl e \<Rightarrow> ''en'' | Inr l \<Rightarrow> l)
                else ''en'')
             else language0)
      in case text_blob L txt of
           Inl e \<Rightarrow>
             Inr \<lparr>sr_sentiment = ''neutral'', sr_score = 1 / 2, sr_polarity = 0,
                  sr_subjectivity = 1 / 2, sr_language = or_else (Some lang) ''en'',
                  sr_word_count = None, sr_char_count = None, sr_error = Some (str_exn e)\<rparr>
         | Inr (polarity, subjectivity) \<Rightarrow>
             Inr \<lparr>sr_sentiment =
                    (if polarity > fl (1 / 10) then ''positive''
                     else if polarity < - fl (1 / 10) then ''negative'' else ''neutral''),
                  sr_score = py_round (fl (fl (polarity + 1) / 2)) 4,
                  sr_polarity = py_round polarity 4,
                  sr_subjectivity = py_round subjectivity 4,
                  sr_language = lang,
                  sr_word_count = Some (length (py_split txt)),
                  sr_char_count = Some (length txt), sr_error = None\<rparr>)"

section \<open>The orchestrator: \<open>upload_file\<close>\<close>

record chunk_result =
  r_chunk_id :: int
  original_text :: string
  processed_text :: string
  detected_language :: string
  was_translated :: bool
  sentiment :: string
  sentiment_score :: rat
  polarity :: rat
  subjectivity :: rat
  confidence :: "rat option"
  r_rating :: "string option"
  r_date :: "string option"
  analysis :: sentiment_result

text \<open>The three service functions the loop calls.\<close>

record collaborators =
  co_detect_language :: "string \<Rightarrow> exn + string"
  co_translate_text :: "string \<Rightarrow> string \<Rightarrow> string option \<Rightarrow> exn + translation"
  co_analyze_sentiment :: "string \<Rightarrow> string \<Rightarrow> exn + sentiment_result"

definition services :: "libs \<Rightarrow> collaborators" where
  "services L =
     \<lparr>co_detect_language = (\<lambda>txt. detect_language L txt ''en''),
      co_translate_text = translate_text L,
      co_analyze_sentiment = analyze_sentiment L\<rparr>"

text \<open>Lines 205 to 210: the language of a chunk.\<close>

definition resolve_language :: "collaborators \<Rightarrow> 'a chunk_scheme \<Rightarrow> exn + string" where
  "resolve_language C chunk =
     (let hint = py_lower (or_else (language chunk) '''') in
      if hint = [] \<or> hint = ''auto'' then co_detect_language C (text chunk) else Inr hint)"

text \<open>
  Lines 212 to 228: the translation, inside its own \<open>try\<close>. The result is
  \<open>(translated_text, was_translated)\<close>.
\<close>

definition translate_step :: "collaborators \<Rightarrow> string \<Rightarrow> string \<Rightarrow> string \<times> bool" where
  "translate_step C txt detected =
     (if detected \<noteq> ''en'' then
        (case co_translate_text C txt ''en'' (Some detected) of
           Inl e \<Rightarrow> (txt, False)
         | Inr translation_result \<Rightarrow>
             if tr_error translation_result = None
             then (translated_text translation_result, True)
             else (txt, False))
      else (txt, False))"

text \<open>Lines 237 to 251.\<close>

definition assemble ::
  "'a chunk_scheme \<Rightarrow> string \<Rightarrow> string \<Rightarrow> bool \<Rightarrow> sentiment_result \<Rightarrow> chunk_result" where
  "assemble chunk detected translated translated_flag sr =
     \<lparr>r_chunk_id = chunk_id chunk, original_text = text chunk, processed_text = translated,
      detected_language = detected, was_translated = translated_flag,
      sentiment = sr_sentiment sr, sentiment_score = sr_score sr, polarity = sr_polarity sr,
      subjectivity = sr_subjectivity sr, confidence = None, r_rating = rating chunk,
      r_date = date chunk, analysis = sr\<rparr>"

text \<open>
  The body of the loop (lines 198 to 254): \<open>Inr None\<close> is \<open>continue\<close>, \<open>Inl\<close> an exception
  that leaves the loop.
\<close>

definition process_chunk :: "collaborators \<Rightarrow> 'a chunk_scheme \<Rightarrow> exn + chunk_result option" where
  "process_chunk C chunk =
     (if py_strip (text chunk) = [] then Inr None
      else
        (case resolve_language C chunk of
           Inl e \<Rightarrow> Inl e
         | Inr detected \<Rightarrow>
             (case translate_step C (text chunk) detected of
                (translated, translated_flag) \<Rightarrow>
                  (case co_analyze_sentiment C translated ''en'' of
                     Inl e \<Rightarrow> Inl e
                   | Inr sr \<Rightarrow> Inr (Some (assemble chunk detected translated translated_flag sr))))))"

fun process_chunks :: "collaborators \<Rightarrow> 'a chunk_scheme list \<Rightarrow> exn + chunk_result list" where
  "process_chunks C [] = Inr []"
| "process_chunks C (chunk # rest) =
     (case process_chunk C chunk of
        Inl e \<Rightarrow> Inl e
      | Inr r \<Rightarrow>
          (case process_chunks C rest of
             Inl e \<Rightarrow> Inl e
           | Inr rs \<Rightarrow> Inr ((case r of None \<Rightarrow> [] | Some x \<Rightarrow> [x]) @ rs)))"

subsection \<open>\<open>generate_summary\<close>\<close>

text \<open>
  The fields of the summary that depend only on the results; the average score (a sum of
  floats, whose rounding depends on the Python version), the topics, the insight lines and
  the optional external insights are left out. \<open>list(set(...))\<close> has no specified order
  and is modelled as the set.
\<close>

record sentiment_counts =
  positive :: nat
  neutral :: nat
  negative :: nat

record percentages =
  pct_positive :: rat
  pct_neutral :: rat
  pct_negative :: rat

record summary =
  total_reviews_analyzed :: nat
  sentiment_distribution :: sentiment_counts
  sentiment_percentages :: "percentages option"
  s_languages_detected :: "string set"
  s_translations_performed :: nat

definition count_step :: "sentiment_counts \<Rightarrow> chunk_result \<Rightarrow> sentiment_counts" where
  "count_step sc r =
     (let s = py_lower (sentiment r) in
      if s = ''positive'' then sc\<lparr>positive := positive sc + 1\<rparr>
      else if s = ''neutral'' then sc\<lparr>neutral := neutral sc + 1\<rparr>
      else if s = ''negative'' then sc\<lparr>negative := negative sc + 1\<rparr>
      else sc)"

text \<open>
  \<open>round((count / total_chunks) * 100, 1)\<close>: the division of the two integers and the
  multiplication are float operations.
\<close>

definition percentage :: "nat \<Rightarrow> nat \<Rightarrow> rat" where
  "percentage n total_chunks = py_round (fl (fl (of_nat n / of_nat total_chunks) * 100)) 1"

definition generate_summary :: "chunk_result list \<Rightarrow> summary" where
  "generate_summary analysis_results =
     (let total_chunks = length analysis_results in
      if total_chunks = 0 then
        \<lparr>total_reviews_analyzed = 0,
         sentiment_distribution = \<lparr>positive = 0, neutral = 0, negative = 0\<rparr>,
         sentiment_percentages = None, s_languages_detected = {},
         s_translations_performed = 0\<rparr>
      else
        (let counts = foldl count_step \<lparr>positive = 0, neutral = 0, negative = 0\<rparr> analysis_results
         in \<lparr>total_reviews_analyzed = total_chunks,
             sentiment_distribution = counts,
             sentiment_percentages =
               Some \<lparr>pct_positive = percentage (positive counts) total_chunks,
                     pct_neutral = percentage (neutral counts) total_chunks,
                     pct_negative = percentage (negative counts) total_chunks\<rparr>,
             s_languages_detected = set (map detected_language analysis_results),
             s_translations_performed = length (filter was_translated analysis_results)\<rparr>))"

subsection \<open>The response\<close>

record response =
  status :: string
  filename :: string
  total_chunks :: nat
  analysis_results :: "chunk_result list"
  summary :: summary
  workflow_completed :: bool
  languages_detected :: "string set"
  translations_performed :: nat

text \<open>
  Lines 188 to 283, from the result of \<open>process_file\<close> on: an exception of the chunker or of
  the loop is answered with status 500 and its message.
\<close>

definition upload_file ::
  "libs \<Rightarrow> string \<Rightarrow> exn + 'a chunk_scheme list \<Rightarrow> (string \<times> nat) + response" where
  "upload_file L name chunking =
     (case chunking of
        Inl e \<Rightarrow> Inl (''Failed to process file: '' @ str_exn e, 500)
      | Inr chunk_list \<Rightarrow>
          (case process_chunks (services L) chunk_list of
             Inl e \<Rightarrow> Inl (''Failed to process file: '' @ str_exn e, 500)
           | Inr results \<Rightarrow>
               Inr \<lparr>status = ''success'', filename = name, total_chunks = length results,
                    analysis_results = results, summary = generate_summary results,
                    workflow_completed = True,
                    languages_detected = set (map detected_language results),
                    translations_performed = length (filter was_translated results)\<rparr>))"

section \<open>Predicates used in the proofs\<close>

text \<open>The ids of a chunk list are \<open>0, 1, 2, \<dots>\<close> in order.\<close>

definition ids_dense :: "('a chunk_scheme) list \<Rightarrow> bool" where
  "ids_dense cs = (map chunk_id cs = map int [0..<length cs])"

text \<open>Only the last chunk of the list, if there is one, has \<open>is_last\<close>.\<close>

definition last_marked :: "('a chunk_scheme) list \<Rightarrow> bool" where
  "last_marked cs =
     (map is_last cs = replicate (length cs - 1) False @ (if cs = [] then [] else [True]))"

text \<open>The invariant of the loop over the sentences.\<close>

definition sentence_inv :: "chunker_state \<Rightarrow> bool" where
  "sentence_inv st =
     (ids_dense (chunks st) \<and> next_id st = int (length (chunks st)) \<and>
      list_all (\<lambda>c. \<not> is_last c) (chunks st))"

text \<open>
  Row ranges: each range starts where the previous one ended; \<open>covered\<close> lists the row
  indices of the ranges in chunk order; \<open>tiles n\<close> says that the ranges cut the rows
  \<open>0, \<dots>, n - 1\<close> into consecutive non-empty pieces.
\<close>

definition abutting :: "csv_chunk list \<Rightarrow> bool" where
  "abutting cs = (\<forall>j. Suc j < length cs \<longrightarrow> start_row (cs ! Suc j) = end_row (cs ! j) + 1)"

definition covered :: "csv_chunk list \<Rightarrow> int list" where
  "covered cs = concat (map (\<lambda>c. [start_row c..end_row c]) cs)"

definition tiles :: "int \<Rightarrow> csv_chunk list \<Rightarrow> bool" where
  "tiles n cs =
     (if cs = [] then n = 0
      else start_row (hd cs) = 0 \<and> end_row (last cs) = n - 1 \<and> abutting cs \<and>
           list_all (\<lambda>c. start_row c \<le> end_row c) cs \<and> covered cs = [0..n - 1])"

text \<open>The invariant of the loop over the rows, before the row of index \<open>i\<close>.\<close>

definition csv_inv :: "nat \<Rightarrow> csv_state \<Rightarrow> bool" where
  "csv_inv i st =
     (ids_dense (csv_chunks st) \<and> csv_next_id st = int (length (csv_chunks st)) \<and>
      list_all (\<lambda>c. \<not> is_last c) (csv_chunks st) \<and>
      tiles (int i - int (length (csv_current st))) (csv_chunks st) \<and>
      length (csv_current st) \<le> i \<and> (0 < i \<longrightarrow> csv_current st \<noteq> []))"

text \<open>A result carries what \<open>analyze_sentiment\<close> returns on its processed text.\<close>

definition scored_by :: "libs \<Rightarrow> chunk_result \<Rightarrow> bool" where
  "scored_by L r =
     (analyze_sentiment L (processed_text r) ''en'' = Inr (analysis r) \<and>
      sentiment r = sr_sentiment (analysis r) \<and> sentiment_score r = sr_score (analysis r))"

text \<open>The label of a result is one of the three keys of \<open>sentiment_counts\<close>.\<close>

definition recognised :: "chunk_result \<Rightarrow> bool" where
  "recognised r =
     (py_lower (sentiment r) = ''positive'' \<or> py_lower (sentiment r) = ''neutral'' \<or>
      py_lower (sentiment r) = ''negative'')"

definition tally :: "sentiment_counts \<Rightarrow> nat" where
  "tally sc = positive sc + neutral sc + negative sc"

section \<open>Example inputs\<close>

text \<open>
  Library behaviours in which each call fails on some input: the detector knows two
  texts and raises on every other, the translator translates one text and raises on
  every other, and the scorer raises on one text and finds one text negative.
\<close>

definition flaky_libs :: libs where
  "flaky_libs =
     \<lparr>detect = (\<lambda>t. if t = ''hola'' then Inr ''ES'' else if t = ''bonjour'' then Inr ''fr''
                     else Inl (LangDetectException ''No features in text.'')),
      translate = (\<lambda>s t x. if x = ''bonjour'' then Inr (Some ''hello'')
                            else Inl (Exception ''timed out'')),
      text_blob = (\<lambda>t. if t = ''bad'' then Inl (Exception ''boom'')
                        else if t = ''hello'' then Inr (0, 0)
                        else if t = ''awful'' then Inr (- (1 / 2), 1 / 4)
                        else Inr (1 / 2, 1 / 4))\<rparr>"

text \<open>Collaborators whose translation call raises.\<close>

definition raising_translation :: collaborators where
  "raising_translation =
     (services flaky_libs)\<lparr>co_translate_text := (\<lambda>txt tgt src. Inl (Exception ''unreachable''))\<rparr>"

text \<open>A text file of five lines, one of them blank, and a chunk of it.\<close>

definition review_lines :: "string list" where
  "review_lines =
     [''hola'' @ [CHR 0x0A], ''bad'' @ [CHR 0x0A], [CHR 0x0A], ''bonjour'' @ [CHR 0x0A],
      ''fine day'' @ [CHR 0x0A]]"

definition hola_chunk :: chunk where
  "hola_chunk = \<lparr>text = ''hola'', chunk_id = 0, is_last = False, language = None,
                  rating = None, date = None\<rparr>"

text \<open>A text file of three reviews: one scored positive, one neutral, one negative.\<close>

definition three_reviews :: "string list" where
  "three_reviews = [''fine day'' @ [CHR 0x0A], ''bad'' @ [CHR 0x0A], ''awful'' @ [CHR 0x0A]]"

text \<open>Three rows of a CSV file with the columns \<open>a\<close> and \<open>b\<close>.\<close>

definition three_rows :: "csv_row list" where
  "three_rows =
     [[(''a'', ''1''), (''b'', ''2'')], [(''a'', ''3''), (''b'', ''4'')],
      [(''a'', ''5''), (''b'', ''6'')]]"

section \<open>Strings\<close>

lemma py_strip_Nil_iff: "py_strip s = [] \<longleftrightarrow> list_all is_space s"
proof -
  have "py_strip s = [] \<longleftrightarrow> (\<forall>x\<in>set (dropWhile is_space s). is_space x)"
    by (simp add: py_strip_def dropWhile_eq_Nil_conv)
  also have "\<dots> \<longleftrightarrow> dropWhile is_space s = []"
  proof
    assume a: "\<forall>x\<in>set (dropWhile is_space s). is_space x"
    show "dropWhile is_space s = []"
    proof (rule ccontr)
      assume n: "dropWhile is_space s \<noteq> []"
      then have "\<not> is_space (hd (dropWhile is_space s))" by (rule hd_dropWhile)
      moreover have "hd (dropWhile is_space s) \<in> set (dropWhile is_space s)" using n by simp
      ultimately show False using a by blast
    qed
  next
    assume e: "dropWhile is_space s = []"
    show "\<forall>x\<in>set (dropWhile is_space s). is_space x" unfolding e by simp
  qed
  also have "\<dots> \<longleftrightarrow> list_all is_space s"
    by (simp add: dropWhile_eq_Nil_conv list_all_iff)
  finally show ?thesis .
qed

text \<open>Stripping a stripped string changes nothing.\<close>

lemma py_strip_idem: "py_strip (py_strip s) = py_strip s"
proof (cases "dropWhile is_space (rev (dropWhile is_space s)) = []")
  case True
  then have e: "py_strip s = []" by (simp add: py_strip_def)
  show ?thesis unfolding e by (simp add: py_strip_def)
next
  case False
  define t where "t = dropWhile is_space (rev (dropWhile is_space s))"
  have h: "\<not> is_space (hd t)" using False unfolding t_def by (rule hd_dropWhile)
  have t1: "dropWhile is_space t = t" using h False by (cases t) (simp_all add: t_def)
  have ne: "dropWhile is_space s \<noteq> []"
  proof
    assume e: "dropWhile is_space s = []"
    have "dropWhile is_space (rev (dropWhile is_space s)) = []" unfolding e by simp
    with False show False by simp
  qed
  have "hd (rev t) = hd (dropWhile is_space s)"
  proof -
    have "\<exists>zs. rev (dropWhile is_space s) = zs @ t"
      unfolding t_def by (metis takeWhile_dropWhile_id)
    then obtain zs where "rev (dropWhile is_space s) = zs @ t" by blast
    then have "dropWhile is_space s = rev t @ rev zs" by (metis rev_append rev_rev_ident)
    moreover have "rev t \<noteq> []" using False by (simp add: t_def)
    ultimately show ?thesis by (metis hd_append2)
  qed
  moreover have "\<not> is_space (hd (dropWhile is_space s))" using ne by (rule hd_dropWhile)
  ultimately have "\<not> is_space (hd (rev t))" by simp
  then have t2: "dropWhile is_space (rev t) = rev t"
    using False by (cases "rev t") (simp_all add: t_def)
  have "py_strip s = rev t" by (simp add: py_strip_def t_def)
  then show ?thesis using t1 t2 by (simp add: py_strip_def)
qed

lemma in_set_dropWhileI: "x \<in> set xs \<Longrightarrow> \<not> P x \<Longrightarrow> x \<in> set (dropWhile P xs)"
  by (induction xs) auto

text \<open>Every character that is not white space lands in one of the pieces of the split.\<close>

lemma split_sentences_cur:
  "x \<in> set cur \<Longrightarrow> \<exists>p\<in>set (split_sentences b cur s). x \<in> set p"
  by (induction b cur s rule: split_sentences.induct) auto

lemma split_sentences_char:
  "x \<in> set s \<Longrightarrow> \<not> is_space x \<Longrightarrow> \<exists>p\<in>set (split_sentences b cur s). x \<in> set p"
proof (induction b cur s rule: split_sentences.induct)
  case (1 after_term cur)
  then show ?case by simp
next
  case (2 after_term cur c cs)
  show ?case
  proof (cases "after_term \<and> is_space c")
    case True
    with "2.prems" have "x \<in> set cs" by auto
    then have "x \<in> set (dropWhile is_space cs)" using "2.prems"(2) by (rule in_set_dropWhileI)
    from "2.IH"(1)[OF True this "2.prems"(2)] True show ?thesis by auto
  next
    case False
    show ?thesis
    proof (cases "x = c")
      case True
      then have "x \<in> set (c # cur)" by simp
      from split_sentences_cur[OF this, of "is_terminator c" cs] False show ?thesis by auto
    next
      case ne: False
      with "2.prems" have "x \<in> set cs" by auto
      from "2.IH"(2)[OF False this "2.prems"(2)] False show ?thesis by auto
    qed
  qed
qed

lemma re_split_nonblank:
  assumes "py_strip s \<noteq> []"
  shows "\<exists>p\<in>set (re_split s). py_strip p \<noteq> []"
proof -
  from assms obtain x where x: "x \<in> set s" "\<not> is_space x"
    by (auto simp: py_strip_Nil_iff list_all_iff)
  from split_sentences_char[OF x, of False "[]"] obtain p where
    p: "p \<in> set (re_split s)" "x \<in> set p" by (auto simp: re_split_def)
  from p(2) x(2) have "\<not> list_all is_space p" by (auto simp: list_all_iff)
  with p(1) show ?thesis by (auto simp: py_strip_Nil_iff)
qed

section \<open>Lists of chunks\<close>

lemma foldl_invariant:
  assumes "P s0" and "\<And>s x. P s \<Longrightarrow> P (f s x)"
  shows "P (foldl f s0 xs)"
  using assms(1) by (induction xs arbitrary: s0) (auto intro: assms(2))

lemma map_all_False:
  "list_all (\<lambda>c. \<not> f c) xs \<Longrightarrow> map f xs = replicate (length xs) False"
  by (induction xs) auto

lemma ids_dense_Nil: "ids_dense []"
  by (simp add: ids_dense_def)

lemma ids_dense_snoc:
  "ids_dense cs \<Longrightarrow> chunk_id c = int (length cs) \<Longrightarrow> ids_dense (cs @ [c])"
  by (simp add: ids_dense_def)

lemma map_chunk_id_mark_last: "map chunk_id (mark_last cs) = map chunk_id cs"
proof (cases "cs = []")
  case True
  then show ?thesis by (simp add: mark_last_def)
next
  case False
  then have "map chunk_id (mark_last cs) = map chunk_id (butlast cs) @ [chunk_id (last cs)]"
    by (simp add: mark_last_def)
  also have "\<dots> = map chunk_id (butlast cs @ [last cs])" by simp
  finally show ?thesis using False by simp
qed

lemma length_mark_last: "length (mark_last cs) = length cs"
  by (cases "cs = []") (simp_all add: mark_last_def)

lemma ids_dense_mark_last: "ids_dense cs \<Longrightarrow> ids_dense (mark_last cs)"
  by (simp add: ids_dense_def map_chunk_id_mark_last length_mark_last)

lemma mark_last_snoc: "mark_last (cs @ [c]) = cs @ [c\<lparr>is_last := True\<rparr>]"
  by (simp add: mark_last_def)

lemma last_marked_mark_last:
  assumes "list_all (\<lambda>c. \<not> is_last c) (butlast cs)"
  shows "last_marked (mark_last cs)"
proof (cases "cs = []")
  case True
  then show ?thesis by (simp add: last_marked_def mark_last_def)
next
  case False
  have "map is_last (butlast cs) = replicate (length cs - 1) False"
    using map_all_False[OF assms] by simp
  with False show ?thesis
    by (simp add: last_marked_def mark_last_def)
qed

section \<open>Sentence mode\<close>

lemma chunk_text_blank: "list_all is_space raw \<Longrightarrow> chunk_text raw cs ov m = []"
  by (simp add: chunk_text_def py_strip_Nil_iff)

lemma chunk_text_single:
  assumes "py_strip raw \<noteq> []" and "int (length (py_strip raw)) \<le> cs"
  shows "chunk_text raw cs ov m =
     [\<lparr>text = py_strip raw, chunk_id = 0, is_last = True, language = None, rating = None,
       date = None, start = 0, end = int (length (py_strip raw))\<rparr>]"
proof -
  from assms(1) have "raw \<noteq> []" by (auto simp: py_strip_def)
  with assms show ?thesis by (simp add: chunk_text_def Let_def)
qed

text \<open>
  C10. An input that is empty or all white space gives the empty list, whatever the three
  sizes are; and when the trimmed input is at most \<open>chunk_size\<close> long, the result is empty
  only for such an input.
\<close>

theorem chunk_text_empty_iff_blank:
  "(list_all is_space raw \<longrightarrow> chunk_text raw chunk_size overlap min_chunk_size = []) \<and>
   (int (length (py_strip raw)) \<le> chunk_size \<longrightarrow>
      (chunk_text raw chunk_size overlap min_chunk_size = [] \<longleftrightarrow> list_all is_space raw))"
proof (intro conjI impI)
  assume "list_all is_space raw"
  then show "chunk_text raw chunk_size overlap min_chunk_size = []" by (rule chunk_text_blank)
next
  assume le: "int (length (py_strip raw)) \<le> chunk_size"
  show "chunk_text raw chunk_size overlap min_chunk_size = [] \<longleftrightarrow> list_all is_space raw"
  proof (cases "list_all is_space raw")
    case True
    then show ?thesis by (simp add: chunk_text_blank)
  next
    case False
    then have "py_strip raw \<noteq> []" by (simp add: py_strip_Nil_iff)
    from chunk_text_single[OF this le] False show ?thesis by simp
  qed
qed

text \<open>
  The theorem at a string of a space, a tab and a newline, and at the string \<open>ok\<close>, with
  the default sizes.
\<close>

theorem chunk_text_empty_iff_blank_witness:
  "list_all is_space [CHR '' '', CHR 0x09, CHR 0x0A] \<and>
   chunk_text [CHR '' '', CHR 0x09, CHR 0x0A] 1000 100 50 = [] \<and>
   int (length (py_strip ''ok'')) \<le> 1000 \<and> \<not> list_all is_space ''ok'' \<and>
   chunk_text ''ok'' 1000 100 50 \<noteq> []"
proof -
  have a: "list_all is_space [CHR '' '', CHR 0x09, CHR 0x0A]" by (simp add: is_space_def)
  have b: "int (length (py_strip ''ok'')) \<le> 1000" by (simp add: py_strip_def is_space_def)
  have c: "\<not> list_all is_space ''ok''" by (simp add: is_space_def)
  from chunk_text_empty_iff_blank[of "[CHR '' '', CHR 0x09, CHR 0x0A]" 1000 100 50] a
  have d: "chunk_text [CHR '' '', CHR 0x09, CHR 0x0A] 1000 100 50 = []" by blast
  from chunk_text_empty_iff_blank[of "''ok''" 1000 100 50] b c
  have e: "chunk_text ''ok'' 1000 100 50 \<noteq> []" by blast
  from a b c d e show ?thesis by blast
qed

text \<open>
  C5, as the claim states it, fails: the empty string is shorter than \<open>chunk_size\<close> and
  gives no chunk, and for a string with a leading space the chunk holds the trimmed text
  and ends at the trimmed length.
\<close>

theorem short_input_not_whole:
  "int (length '''') < 1000 \<and> chunk_text '''' 1000 100 50 = [] \<and>
   int (length '' a'') < 1000 \<and>
   chunk_text '' a'' 1000 100 50 =
     [\<lparr>text = ''a'', chunk_id = 0, is_last = True, language = None, rating = None,
       date = None, start = 0, end = 1\<rparr>] \<and>
   ''a'' \<noteq> '' a'' \<and> (1 :: int) \<noteq> int (length '' a'')"
  by code_simp

text \<open>
  C5, amended. When the trimmed input is not empty and at most \<open>chunk_size\<close> long,
  \<open>chunk_text\<close> returns exactly one chunk: its text is the trimmed input, its id is 0, it
  starts at 0, ends at the length of the trimmed input and is marked last.
\<close>

theorem chunk_text_short_input:
  assumes "py_strip raw \<noteq> []" and "int (length (py_strip raw)) \<le> chunk_size"
  shows "chunk_text raw chunk_size overlap min_chunk_size =
     [\<lparr>text = py_strip raw, chunk_id = 0, is_last = True, language = None, rating = None,
       date = None, start = 0, end = int (length (py_strip raw))\<rparr>]"
  using assms by (rule chunk_text_single)

theorem chunk_text_short_input_witness:
  "py_strip '' Great product! '' \<noteq> [] \<and> int (length (py_strip '' Great product! '')) \<le> 1000 \<and>
   chunk_text '' Great product! '' 1000 100 50 =
     [\<lparr>text = ''Great product!'', chunk_id = 0, is_last = True, language = None, rating = None,
       date = None, start = 0, end = 14\<rparr>]"
proof -
  have s: "py_strip '' Great product! '' = ''Great product!''" by code_simp
  have a: "py_strip '' Great product! '' \<noteq> []" unfolding s by simp
  have b: "int (length (py_strip '' Great product! '')) \<le> 1000" unfolding s by simp
  from chunk_text_short_input[OF a b, of 100 50] a b show ?thesis
    unfolding s by simp
qed

text \<open>The loop over the sentences keeps its invariant.\<close>

lemma sentence_inv_init: "sentence_inv init_state"
  by (simp add: sentence_inv_def init_state_def ids_dense_Nil)

lemma sentence_inv_step:
  assumes "sentence_inv st"
  shows "sentence_inv (sentence_step source cs ov st raw)"
proof -
  have "ids_dense (chunks st @ [mk_text_chunk source t (next_id st) False])" for t
    using assms by (intro ids_dense_snoc) (simp_all add: sentence_inv_def mk_text_chunk_def)
  with assms show ?thesis
    by (simp add: sentence_step_def sentence_inv_def Let_def mk_text_chunk_def)
qed

lemma sentence_inv_loop: "sentence_inv (sentence_loop source cs ov ss)"
  unfolding sentence_loop_def
  by (rule foldl_invariant) (auto intro: sentence_inv_init sentence_inv_step)

lemma ids_dense_flush_final:
  "sentence_inv st \<Longrightarrow> ids_dense (flush_final source m st)"
  by (auto simp: flush_final_def sentence_inv_def mk_text_chunk_def intro: ids_dense_snoc)

lemma ids_dense_chunk_text: "ids_dense (chunk_text raw cs ov m)"
  by (simp add: chunk_text_def Let_def ids_dense_Nil ids_dense_mark_last
      ids_dense_flush_final sentence_inv_loop)
    (simp add: ids_dense_def)

lemma butlast_flush_final:
  "sentence_inv st \<Longrightarrow> list_all (\<lambda>c. \<not> is_last c) (butlast (flush_final source m st))"
  by (auto simp: flush_final_def sentence_inv_def list_all_iff dest: in_set_butlastD)

text \<open>In sentence mode exactly the last chunk is marked last.\<close>

lemma last_marked_chunk_text: "last_marked (chunk_text raw cs ov m)"
  by (simp add: chunk_text_def Let_def last_marked_mark_last butlast_flush_final sentence_inv_loop)
     (simp add: last_marked_def)

text \<open>The running chunk is not empty once a sentence has been read.\<close>

lemma sentence_step_keeps:
  "current_chunk st \<noteq> [] \<Longrightarrow> current_chunk (sentence_step src cs ov st raw) \<noteq> []"
  by (simp add: sentence_step_def Let_def)

lemma sentence_step_fills:
  "py_strip raw \<noteq> [] \<Longrightarrow> current_chunk (sentence_step src cs ov st raw) \<noteq> []"
  by (simp add: sentence_step_def Let_def)

lemma foldl_sentence_step_nonempty:
  "current_chunk st \<noteq> [] \<or> (\<exists>p\<in>set ss. py_strip p \<noteq> []) \<Longrightarrow>
   current_chunk (foldl (sentence_step src cs ov) st ss) \<noteq> []"
proof (induction ss arbitrary: st)
  case Nil
  then show ?case by simp
next
  case (Cons s ss)
  show ?case
  proof (cases "current_chunk (sentence_step src cs ov st s) \<noteq> []")
    case True
    then show ?thesis using Cons.IH[of "sentence_step src cs ov st s"] by simp
  next
    case False
    with sentence_step_keeps[of st src cs ov s] sentence_step_fills[of s src cs ov st]
    have "current_chunk st = []" "py_strip s = []" by auto
    with Cons.prems have "\<exists>p\<in>set ss. py_strip p \<noteq> []" by auto
    then show ?thesis using Cons.IH[of "sentence_step src cs ov st s"] by simp
  qed
qed

lemma current_chunk_final:
  assumes "py_strip raw \<noteq> []"
  shows "current_chunk (sentence_loop (py_strip raw) cs ov (re_split (py_strip raw))) \<noteq> []"
proof -
  from assms have "py_strip (py_strip raw) \<noteq> []" by (simp add: py_strip_idem)
  from re_split_nonblank[OF this] show ?thesis
    unfolding sentence_loop_def by (intro foldl_sentence_step_nonempty) simp
qed

text \<open>
  C4, as the claim states it, fails. With \<open>chunk_size = 10\<close> and the default
  \<open>min_chunk_size = 50\<close> the running chunk at the end of the loop is the two sentences
  \<open>Hello world.\<close> and \<open>Bye.\<close>, 17 characters when joined, and it is not returned: the only
  chunk is the one closed inside the loop. With one sentence longer than \<open>chunk_size\<close>
  nothing is returned at all.
\<close>

theorem short_final_chunk_dropped:
  "current_chunk (sentence_loop ''Hello world. Bye.'' 10 100 (re_split ''Hello world. Bye.''))
     = [''Hello world.'', ''Bye.''] \<and>
   chunk_text ''Hello world. Bye.'' 10 100 50 =
     [\<lparr>text = ''Hello world.'', chunk_id = 0, is_last = True, language = None, rating = None,
       date = None, start = 0, end = 12\<rparr>] \<and>
   current_chunk (sentence_loop ''Hello world'' 5 100 (re_split ''Hello world'')) = [''Hello world''] \<and>
   chunk_text ''Hello world'' 5 100 50 = []"
  by code_simp

text \<open>
  C4, amended. For an input whose trimmed text is longer than \<open>chunk_size\<close>, the running
  chunk at the end of the loop is not empty, and it is flushed as the last chunk, marked
  last, exactly when its joined length is at least \<open>min_chunk_size\<close>; otherwise it is
  discarded and the result is the chunks closed inside the loop, the last of them (if
  there is one) marked last.
\<close>

theorem final_chunk_flush:
  assumes "py_strip raw \<noteq> []" and "chunk_size < int (length (py_strip raw))"
  shows "let source = py_strip raw;
             st = sentence_loop source chunk_size overlap (re_split source);
             final = py_join '' '' (current_chunk st)
         in current_chunk st \<noteq> [] \<and>
            chunk_text raw chunk_size overlap min_chunk_size =
              (if min_chunk_size \<le> int (length final)
               then chunks st @ [mk_text_chunk source final (next_id st) True]
               else mark_last (chunks st))"
proof -
  from assms(1) have r: "raw \<noteq> []" by (auto simp: py_strip_def)
  from current_chunk_final[OF assms(1)] assms r show ?thesis
    by (simp add: chunk_text_def Let_def flush_final_def mark_last_snoc mk_text_chunk_def)
qed

text \<open>The theorem at the text above, once with \<open>min_chunk_size = 5\<close> and once with 50.\<close>

theorem final_chunk_flush_witness:
  "py_strip ''Hello world. Bye.'' \<noteq> [] \<and> 10 < int (length (py_strip ''Hello world. Bye.'')) \<and>
   chunk_text ''Hello world. Bye.'' 10 100 5 =
     [\<lparr>text = ''Hello world.'', chunk_id = 0, is_last = False, language = None, rating = None,
       date = None, start = 0, end = 12\<rparr>,
      \<lparr>text = ''Hello world. Bye.'', chunk_id = 1, is_last = True, language = None,
       rating = None, date = None, start = 0, end = 17\<rparr>] \<and>
   chunk_text ''Hello world. Bye.'' 10 100 50 =
     [\<lparr>text = ''Hello world.'', chunk_id = 0, is_last = True, language = None, rating = None,
       date = None, start = 0, end = 12\<rparr>]"
proof -
  have s: "py_strip ''Hello world. Bye.'' = ''Hello world. Bye.''" by code_simp
  have a: "py_strip ''Hello world. Bye.'' \<noteq> []" unfolding s by simp
  have b: "10 < int (length (py_strip ''Hello world. Bye.''))" unfolding s by simp
  define st where "st = sentence_loop ''Hello world. Bye.'' 10 100 (re_split ''Hello world. Bye.'')"
  have st: "st = \<lparr>chunks = [\<lparr>text = ''Hello world.'', chunk_id = 0, is_last = False,
                     language = None, rating = None, date = None, start = 0, end = 12\<rparr>],
                  current_chunk = [''Hello world.'', ''Bye.''], current_length = 17,
                  next_id = 1\<rparr>"
    unfolding st_def by code_simp
  have f: "mk_text_chunk ''Hello world. Bye.'' ''Hello world. Bye.'' 1 True =
      \<lparr>text = ''Hello world. Bye.'', chunk_id = 1, is_last = True, language = None,
       rating = None, date = None, start = 0, end = 17\<rparr>"
    by code_simp
  from final_chunk_flush[OF a b, of 100 5]
  have c: "chunk_text ''Hello world. Bye.'' 10 100 5 =
      chunks st @ [mk_text_chunk ''Hello world. Bye.'' ''Hello world. Bye.'' (next_id st) True]"
    unfolding s Let_def st_def[symmetric] by (simp add: st)
  from final_chunk_flush[OF a b, of 100 50]
  have d: "chunk_text ''Hello world. Bye.'' 10 100 50 = mark_last (chunks st)"
    unfolding s Let_def st_def[symmetric] by (simp add: st)
  from a b c d f show ?thesis by (simp add: st mark_last_def)
qed

section \<open>Line mode\<close>

lemma text_file_loop_ids:
  "map chunk_id (text_file_loop n i ls) =
   map int (filter (\<lambda>j. py_strip (ls ! (j - i)) \<noteq> []) [i..<i + length ls])"
proof (induction ls arbitrary: i)
  case Nil
  then show ?case by simp
next
  case (Cons raw rest)
  have shift: "filter (\<lambda>j. py_strip ((raw # rest) ! (j - i)) \<noteq> []) [Suc i..<Suc i + length rest]
      = filter (\<lambda>j. py_strip (rest ! (j - Suc i)) \<noteq> []) [Suc i..<Suc i + length rest]"
  proof (rule filter_cong[OF refl])
    fix j assume "j \<in> set [Suc i..<Suc i + length rest]"
    then have "j - i = Suc (j - Suc i)" by auto
    then show "(py_strip ((raw # rest) ! (j - i)) \<noteq> []) = (py_strip (rest ! (j - Suc i)) \<noteq> [])"
      by simp
  qed
  have upt: "[i..<i + length (raw # rest)] = i # [Suc i..<Suc i + length rest]"
    by (simp add: upt_rec)
  show ?case
    unfolding upt using Cons.IH[of "Suc i"] shift by (simp add: Let_def)
qed

text \<open>In line mode the id of a chunk is the index of its line in the file.\<close>

lemma process_text_file_ids:
  "map chunk_id (process_text_file lines) =
   map int (filter (\<lambda>j. py_strip (lines ! j) \<noteq> []) [0..<length lines])"
  using text_file_loop_ids[of "length lines" 0 lines] by (simp add: process_text_file_def)

lemma process_text_file_increasing:
  "sorted_wrt (<) (map chunk_id (process_text_file lines))"
  unfolding process_text_file_ids
  by (simp add: sorted_wrt_map sorted_wrt_filter)

text \<open>In line mode a chunk is marked last exactly when it comes from the last line.\<close>

lemma text_file_loop_is_last:
  "c \<in> set (text_file_loop n i ls) \<Longrightarrow> is_last c \<longleftrightarrow> chunk_id c = int n - 1"
  by (induction ls arbitrary: i) (auto simp: Let_def split: if_splits)

lemma process_text_file_is_last:
  "c \<in> set (process_text_file lines) \<Longrightarrow> is_last c \<longleftrightarrow> chunk_id c = int (length lines) - 1"
  unfolding process_text_file_def by (rule text_file_loop_is_last)

text \<open>
  C3. In line mode the marker is computed as \<open>i == len(lines) - 1\<close>, so a file whose last
  line is blank gives chunks none of which is marked last: here a file of the line
  \<open>good\<close> followed by an empty line.
\<close>

theorem line_mode_trailing_blank_unmarked:
  "process_text_file [''good'' @ [CHR 0x0A], [CHR 0x0A]] =
     [\<lparr>text = ''good'', chunk_id = 0, is_last = False, language = None, rating = None,
       date = None, start = 0, end = 4, line_number = 1\<rparr>] \<and>
   filter is_last (process_text_file [''good'' @ [CHR 0x0A], [CHR 0x0A]]) = []"
  by code_simp

section \<open>CSV mode\<close>

lemma abutting_snoc:
  assumes "abutting cs" and "cs \<noteq> [] \<Longrightarrow> start_row c = end_row (last cs) + 1"
  shows "abutting (cs @ [c])"
  unfolding abutting_def
proof (intro allI impI)
  fix j assume j: "Suc j < length (cs @ [c])"
  show "start_row ((cs @ [c]) ! Suc j) = end_row ((cs @ [c]) ! j) + 1"
  proof (cases "Suc j < length cs")
    case True
    with assms(1) show ?thesis by (simp add: abutting_def nth_append)
  next
    case False
    with j have e: "Suc j = length cs" by simp
    then have ne: "cs \<noteq> []" by auto
    from e have j': "j = length cs - 1" by arith
    have "(cs @ [c]) ! j = last cs"
      using ne unfolding j' by (simp add: nth_append last_conv_nth)
    moreover from e have "(cs @ [c]) ! Suc j = c" by (simp add: nth_append)
    ultimately show ?thesis using assms(2)[OF ne] by simp
  qed
qed

lemma upto_append: "(0::int) \<le> a \<Longrightarrow> a \<le> b \<Longrightarrow> [0..a - 1] @ [a..b - 1] = [0..b - 1]"
  using upto_split1[of 0 a "b - 1"] by (cases "a = b") simp_all

lemma tiles_snoc:
  assumes "tiles a cs" and "0 \<le> a" and "a < b" and "start_row c = a" and "end_row c = b - 1"
  shows "tiles b (cs @ [c])"
proof -
  have cov: "covered (cs @ [c]) = [0..b - 1]"
  proof (cases "cs = []")
    case True
    with assms show ?thesis by (simp add: tiles_def covered_def)
  next
    case False
    with assms(1) have "covered cs = [0..a - 1]" by (simp add: tiles_def)
    with assms(4,5) upto_append[OF assms(2), of b] assms(3) show ?thesis
      by (simp add: covered_def)
  qed
  have ab: "abutting (cs @ [c])"
  proof (cases "cs = []")
    case True
    then show ?thesis by (simp add: abutting_def)
  next
    case False
    with assms(1,4) show ?thesis by (intro abutting_snoc) (simp_all add: tiles_def)
  qed
  have hd0: "start_row (hd (cs @ [c])) = 0"
    using assms(1,4) by (cases cs) (simp_all add: tiles_def)
  have le: "list_all (\<lambda>c. start_row c \<le> end_row c) (cs @ [c])"
    using assms by (cases "cs = []") (simp_all add: tiles_def)
  from cov ab hd0 le assms(5) show ?thesis by (simp add: tiles_def)
qed

lemma csv_inv_init: "csv_inv 0 csv_init"
  by (simp add: csv_inv_def csv_init_def ids_dense_Nil tiles_def)

lemma csv_inv_step:
  assumes "csv_inv i st"
  shows "csv_inv (Suc i) (csv_step f k i row st)"
proof (cases "csv_length st + int (length (row_text row)) > k \<and> csv_current st \<noteq> []")
  case True
  define cur where "cur = csv_current st"
  define c where
    "c = mk_csv_chunk f cur (csv_next_id st) (int i - int (length cur)) (int i - 1) False"
  have st': "csv_step f k i row st =
      \<lparr>csv_chunks = csv_chunks st @ [c], csv_current = [row_text row],
       csv_length = int (length (row_text row)), csv_next_id = csv_next_id st + 1\<rparr>"
    using True by (simp add: csv_step_def Let_def c_def cur_def)
  have cf: "chunk_id c = csv_next_id st" "start_row c = int i - int (length cur)"
    "end_row c = int i - 1" "\<not> is_last c"
    by (simp_all add: c_def mk_csv_chunk_def)
  from True have cne: "cur \<noteq> []" by (simp add: cur_def)
  from assms have inv:
    "ids_dense (csv_chunks st)" "csv_next_id st = int (length (csv_chunks st))"
    "list_all (\<lambda>c. \<not> is_last c) (csv_chunks st)"
    "tiles (int i - int (length cur)) (csv_chunks st)" "length cur \<le> i"
    by (simp_all add: csv_inv_def cur_def)
  have 1: "ids_dense (csv_chunks st @ [c])"
    using inv(1,2) cf(1) by (intro ids_dense_snoc) simp_all
  have 2: "tiles (int i) (csv_chunks st @ [c])"
    using inv(4,5) cne cf(2,3)
    by (intro tiles_snoc[where a = "int i - int (length cur)"]) simp_all
  show ?thesis
    unfolding st' csv_inv_def
    using 1 2 inv(2,3) cf(4) by simp
next
  case False
  then have st': "csv_step f k i row st =
      st\<lparr>csv_current := csv_current st @ [row_text row],
         csv_length := csv_length st + int (length (row_text row)) + 1\<rparr>"
    by (auto simp: csv_step_def Let_def)
  show ?thesis
    unfolding st' using assms by (simp add: csv_inv_def)
qed

lemma csv_inv_loop:
  "csv_inv i st \<Longrightarrow> csv_inv (i + length rows) (csv_loop f k i rows st)"
proof (induction rows arbitrary: i st)
  case Nil
  then show ?case by simp
next
  case (Cons row rows)
  from Cons.IH[OF csv_inv_step[OF Cons.prems], of f k row] show ?case by simp
qed

lemma csv_inv_final: "csv_inv (length rows) (csv_loop f k 0 rows csv_init)"
  using csv_inv_loop[OF csv_inv_init, of rows f k] by simp

lemma csv_current_final: "rows \<noteq> [] \<Longrightarrow> csv_current (csv_loop f k 0 rows csv_init) \<noteq> []"
  using csv_inv_final[of rows f k] by (simp add: csv_inv_def)

lemma process_csv_file_shape:
  assumes "rows \<noteq> []"
  shows "process_csv_file f rows k =
         csv_chunks (csv_loop f k 0 rows csv_init) @
         [mk_csv_chunk f (csv_current (csv_loop f k 0 rows csv_init))
            (csv_next_id (csv_loop f k 0 rows csv_init))
            (int (length rows) - int (length (csv_current (csv_loop f k 0 rows csv_init))))
            (int (length rows) - 1) True]"
proof -
  from assms have "int (length rows - 1) = int (length rows) - 1" by (cases rows) simp_all
  with csv_current_final[OF assms, of f k] assms show ?thesis
    by (simp add: process_csv_file_def csv_flush_def Let_def)
qed

lemma process_csv_file_tiles:
  assumes "rows \<noteq> []"
  shows "tiles (int (length rows)) (process_csv_file f rows k)"
proof -
  define st where "st = csv_loop f k 0 rows csv_init"
  have inv: "csv_inv (length rows) st" unfolding st_def by (rule csv_inv_final)
  have ne: "csv_current st \<noteq> []" unfolding st_def by (rule csv_current_final[OF assms])
  show ?thesis
    unfolding process_csv_file_shape[OF assms] st_def[symmetric]
    using inv ne
    by (intro tiles_snoc[where a = "int (length rows) - int (length (csv_current st))"])
       (simp_all add: csv_inv_def mk_csv_chunk_def)
qed

text \<open>
  C6. For a CSV input with at least one data row the row ranges of the chunks, in chunk
  order, cut the row indices into consecutive pieces: there is a chunk, the first range
  starts at row 0, the last ends at the last row, each range starts one after the end of
  the previous one, no range is empty, and listing the rows of the ranges in order gives
  every row index exactly once, in ascending order.
\<close>

theorem csv_ranges_partition:
  assumes "rows \<noteq> []"
  shows "process_csv_file fieldnames rows chunk_size \<noteq> [] \<and>
     start_row (hd (process_csv_file fieldnames rows chunk_size)) = 0 \<and>
     end_row (last (process_csv_file fieldnames rows chunk_size)) = int (length rows) - 1 \<and>
     (\<forall>j. Suc j < length (process_csv_file fieldnames rows chunk_size) \<longrightarrow>
        start_row (process_csv_file fieldnames rows chunk_size ! Suc j) =
        end_row (process_csv_file fieldnames rows chunk_size ! j) + 1) \<and>
     (\<forall>c \<in> set (process_csv_file fieldnames rows chunk_size). start_row c \<le> end_row c) \<and>
     concat (map (\<lambda>c. [start_row c..end_row c]) (process_csv_file fieldnames rows chunk_size))
       = [0..int (length rows) - 1]"
proof -
  have ne: "process_csv_file fieldnames rows chunk_size \<noteq> []"
    by (simp add: process_csv_file_shape[OF assms])
  with process_csv_file_tiles[OF assms, of fieldnames chunk_size] show ?thesis
    by (simp add: tiles_def abutting_def covered_def list_all_iff)
qed

text \<open>
  The theorem at three rows with \<open>chunk_size = 25\<close>: the first two rows share a chunk, the
  third has its own.
\<close>

theorem csv_ranges_partition_witness:
  "three_rows \<noteq> [] \<and>
   map (\<lambda>c. (start_row c, end_row c)) (process_csv_file (Some [''a'', ''b'']) three_rows 25)
     = [(0, 1), (2, 2)] \<and>
   start_row (hd (process_csv_file (Some [''a'', ''b'']) three_rows 25)) = 0 \<and>
   end_row (last (process_csv_file (Some [''a'', ''b'']) three_rows 25)) = 2 \<and>
   concat (map (\<lambda>c. [start_row c..end_row c]) (process_csv_file (Some [''a'', ''b'']) three_rows 25))
     = [0, 1, 2]"
proof -
  have a: "three_rows \<noteq> []" by (simp add: three_rows_def)
  have n: "int (length three_rows) - 1 = 2" by (simp add: three_rows_def)
  have u: "[0..2::int] = [0, 1, 2]" by (simp add: upto.simps)
  have r: "map (\<lambda>c. (start_row c, end_row c)) (process_csv_file (Some [''a'', ''b'']) three_rows 25)
     = [(0, 1), (2, 2)]" by code_simp
  from csv_ranges_partition[OF a, of "Some [''a'', ''b'']" 25] a r show ?thesis
    unfolding n u by blast
qed

lemma ids_dense_process_csv_file: "ids_dense (process_csv_file f rows k)"
proof -
  have inv: "csv_inv (length rows) (csv_loop f k 0 rows csv_init)" by (rule csv_inv_final)
  then show ?thesis
    by (auto simp: process_csv_file_def csv_flush_def Let_def csv_inv_def mk_csv_chunk_def
        intro: ids_dense_snoc)
qed

text \<open>In CSV mode exactly the last chunk is marked last.\<close>

lemma last_marked_process_csv_file: "last_marked (process_csv_file f rows k)"
proof -
  have inv: "csv_inv (length rows) (csv_loop f k 0 rows csv_init)" by (rule csv_inv_final)
  then have "map is_last (csv_chunks (csv_loop f k 0 rows csv_init))
      = replicate (length (csv_chunks (csv_loop f k 0 rows csv_init))) False"
    by (intro map_all_False) (simp add: csv_inv_def)
  with inv show ?thesis
    by (auto simp: process_csv_file_def csv_flush_def Let_def csv_inv_def mk_csv_chunk_def
        last_marked_def csv_init_def)
qed

section \<open>Chunk ids\<close>

text \<open>
  In sentence mode and in CSV mode a chunk takes the next id when it is emitted, and what
  is skipped takes none: the ids are \<open>0, 1, 2, \<dots>\<close> in emission order.
\<close>

lemma counted_chunk_ids_dense:
  "map chunk_id (chunk_text raw chunk_size overlap min_chunk_size) =
     map int [0..<length (chunk_text raw chunk_size overlap min_chunk_size)] \<and>
   map chunk_id (process_csv_file fieldnames rows row_chunk_size) =
     map int [0..<length (process_csv_file fieldnames rows row_chunk_size)]"
  using ids_dense_chunk_text[of raw chunk_size overlap min_chunk_size]
    ids_dense_process_csv_file[of fieldnames rows row_chunk_size]
  by (simp add: ids_dense_def)

text \<open>
  C2. In line mode a chunk takes the index that \<open>enumerate\<close> gives its line, so a skipped
  blank line consumes an id: the two chunks of a file with a blank line between two
  reviews have the ids 0 and 2, where the ids of two emitted chunks are to be 0 and 1.
\<close>

theorem line_mode_chunk_id_gap:
  "map chunk_id (process_text_file [''a'' @ [CHR 0x0A], [CHR 0x0A], ''b'' @ [CHR 0x0A]]) = [0, 2] \<and>
   map text (process_text_file [''a'' @ [CHR 0x0A], [CHR 0x0A], ''b'' @ [CHR 0x0A]]) = [''a'', ''b'']"
  by code_simp

section \<open>The services\<close>

text \<open>Each of the three service functions catches what its library call raises.\<close>

lemma detect_language_returns: "\<exists>l. detect_language L txt d = Inr l"
  by (simp add: detect_language_def Let_def split: sum.split)

lemma translate_text_returns: "\<exists>tr. translate_text L txt tgt src = Inr tr"
  by (simp add: translate_text_def split: sum.split)

lemma analyze_sentiment_returns: "\<exists>sr. analyze_sentiment L txt lang = Inr sr"
  by (simp add: analyze_sentiment_def Let_def split: sum.split prod.split)

lemma translate_text_error:
  "translate L (translator_source src) tgt txt = Inl e \<Longrightarrow>
   \<exists>tr. translate_text L txt tgt src = Inr tr \<and> tr_error tr \<noteq> None \<and> translated_text tr = txt"
  by (simp add: translate_text_def)

lemma analyze_sentiment_label:
  "analyze_sentiment L txt lang = Inr sr \<Longrightarrow>
   sr_sentiment sr = ''positive'' \<or> sr_sentiment sr = ''neutral'' \<or> sr_sentiment sr = ''negative''"
  by (auto simp: analyze_sentiment_def Let_def split: sum.splits prod.splits if_splits)

lemma analyze_sentiment_default:
  "text_blob L txt = Inl e \<Longrightarrow> analyze_sentiment L txt lang = Inr sr \<Longrightarrow>
   sr_sentiment sr = ''neutral'' \<and> sr_score sr = 1 / 2 \<and> sr_error sr = Some (str_exn e)"
  by (auto simp: analyze_sentiment_def Let_def)

section \<open>The loop over the chunks\<close>

text \<open>
  The loop has a \<open>try\<close> around the translation only: an exception of the language
  resolution or of the scorer would leave it.
\<close>

lemma process_chunk_resolution_raises:
  "py_strip (text chunk) \<noteq> [] \<Longrightarrow> resolve_language C chunk = Inl e \<Longrightarrow>
   process_chunk C chunk = Inl e"
  by (simp add: process_chunk_def)

lemma process_chunk_scorer_raises:
  "py_strip (text chunk) \<noteq> [] \<Longrightarrow> resolve_language C chunk = Inr l \<Longrightarrow>
   co_analyze_sentiment C (fst (translate_step C (text chunk) l)) ''en'' = Inl e \<Longrightarrow>
   process_chunk C chunk = Inl e"
  by (cases "translate_step C (text chunk) l") (simp add: process_chunk_def)

lemma resolve_language_services: "\<exists>l. resolve_language (services L) chunk = Inr l"
  using detect_language_returns[of L "text chunk" "''en''"]
  by (simp add: resolve_language_def services_def Let_def)

lemma process_chunk_services:
  "\<exists>r. process_chunk (services L) chunk = Inr r \<and>
       (py_strip (text chunk) = [] \<longrightarrow> r = None) \<and>
       (py_strip (text chunk) \<noteq> [] \<longrightarrow>
          (\<exists>x. r = Some x \<and> r_chunk_id x = chunk_id chunk \<and> scored_by L x))"
proof (cases "py_strip (text chunk) = []")
  case True
  then show ?thesis by (simp add: process_chunk_def)
next
  case False
  obtain l where l: "resolve_language (services L) chunk = Inr l"
    using resolve_language_services by blast
  obtain t b where tb: "translate_step (services L) (text chunk) l = (t, b)"
    by (cases "translate_step (services L) (text chunk) l")
  obtain sr where sr: "analyze_sentiment L t ''en'' = Inr sr"
    using analyze_sentiment_returns by blast
  then have "co_analyze_sentiment (services L) t ''en'' = Inr sr" by (simp add: services_def)
  with False l tb sr show ?thesis
    by (simp add: process_chunk_def assemble_def scored_by_def)
qed

lemma process_chunks_services:
  "\<exists>rs. process_chunks (services L) cs = Inr rs \<and>
        map r_chunk_id rs = map chunk_id (filter (\<lambda>c. py_strip (text c) \<noteq> []) cs) \<and>
        list_all (scored_by L) rs"
proof (induction cs)
  case Nil
  then show ?case by simp
next
  case (Cons c cs)
  then obtain rs where rs: "process_chunks (services L) cs = Inr rs"
    "map r_chunk_id rs = map chunk_id (filter (\<lambda>c. py_strip (text c) \<noteq> []) cs)"
    "list_all (scored_by L) rs" by blast
  obtain r where r: "process_chunk (services L) c = Inr r"
    "py_strip (text c) = [] \<longrightarrow> r = None"
    "py_strip (text c) \<noteq> [] \<longrightarrow> (\<exists>x. r = Some x \<and> r_chunk_id x = chunk_id c \<and> scored_by L x)"
    using process_chunk_services[of L c] by blast
  show ?case
  proof (cases "py_strip (text c) = []")
    case True
    with r rs show ?thesis by simp
  next
    case False
    with r obtain x where "r = Some x" "r_chunk_id x = chunk_id c" "scored_by L x" by blast
    with r(1) rs False show ?thesis by simp
  qed
qed

lemma upload_file_returns:
  "\<exists>resp. upload_file L name (Inr chunk_list) = Inr resp \<and>
     map r_chunk_id (analysis_results resp) =
       map chunk_id (filter (\<lambda>c. py_strip (text c) \<noteq> []) chunk_list)"
proof -
  obtain rs where "process_chunks (services L) chunk_list = Inr rs"
    "map r_chunk_id rs = map chunk_id (filter (\<lambda>c. py_strip (text c) \<noteq> []) chunk_list)"
    using process_chunks_services[of L chunk_list] by blast
  then show ?thesis by (simp add: upload_file_def)
qed

text \<open>
  C1. Once the chunker has produced the chunks, whatever the library calls behind language
  detection, translation and scoring raise, the upload returns a response with one result
  for every chunk whose trimmed text is not empty, in order; a result whose scoring
  raised carries the neutral default (label \<open>neutral\<close>, score one half) and the message
  of the exception.
\<close>

theorem upload_file_isolates_failures:
  "\<exists>resp. upload_file L name (Inr chunk_list) = Inr resp \<and>
     map r_chunk_id (analysis_results resp) =
       map chunk_id (filter (\<lambda>c. py_strip (text c) \<noteq> []) chunk_list) \<and>
     total_chunks resp = length (filter (\<lambda>c. py_strip (text c) \<noteq> []) chunk_list) \<and>
     (\<forall>r \<in> set (analysis_results resp). \<forall>e. text_blob L (processed_text r) = Inl e \<longrightarrow>
        sentiment r = ''neutral'' \<and> sentiment_score r = 1 / 2 \<and>
        sr_error (analysis r) = Some (str_exn e))"
proof -
  obtain rs where rs: "process_chunks (services L) chunk_list = Inr rs"
    "map r_chunk_id rs = map chunk_id (filter (\<lambda>c. py_strip (text c) \<noteq> []) chunk_list)"
    "list_all (scored_by L) rs"
    using process_chunks_services[of L chunk_list] by blast
  from rs(2) have len: "length rs = length (filter (\<lambda>c. py_strip (text c) \<noteq> []) chunk_list)"
    by (metis length_map)
  have dflt: "sentiment r = ''neutral'' \<and> sentiment_score r = 1 / 2 \<and>
        sr_error (analysis r) = Some (str_exn e)"
    if "r \<in> set rs" "text_blob L (processed_text r) = Inl e" for r e
  proof -
    from that(1) rs(3) have "scored_by L r" by (simp add: list_all_iff)
    with analyze_sentiment_default[OF that(2), of "''en''" "analysis r"] show ?thesis
      by (simp add: scored_by_def)
  qed
  from rs(1,2) len dflt show ?thesis by (simp add: upload_file_def)
qed

text \<open>
  The theorem at a file of five lines, one blank: detection raises on three of the four
  reviews, translation raises on the Spanish one and scoring raises on the second; the
  response has the four results, the second with the neutral default.
\<close>

theorem upload_file_isolates_failures_witness:
  "\<exists>resp. upload_file flaky_libs ''reviews.txt'' (Inr (process_text_file review_lines)) = Inr resp \<and>
     map r_chunk_id (analysis_results resp) = [0, 1, 3, 4] \<and> total_chunks resp = 4 \<and>
     map sentiment (analysis_results resp) = [''positive'', ''neutral'', ''neutral'', ''positive''] \<and>
     map (\<lambda>r. sr_error (analysis r)) (analysis_results resp) = [None, Some ''boom'', None, None]"
proof -
  have f: "map chunk_id (filter (\<lambda>c. py_strip (text c) \<noteq> []) (process_text_file review_lines))
      = [0, 1, 3, 4]" by code_simp
  have g: "map sentiment (projr (process_chunks (services flaky_libs) (process_text_file review_lines)))
      = [''positive'', ''neutral'', ''neutral'', ''positive'']" by code_simp
  have h: "map (\<lambda>r. sr_error (analysis r))
      (projr (process_chunks (services flaky_libs) (process_text_file review_lines)))
      = [None, Some ''boom'', None, None]" by code_simp
  from upload_file_isolates_failures[of flaky_libs "''reviews.txt''" "process_text_file review_lines"]
  obtain resp where resp:
    "upload_file flaky_libs ''reviews.txt'' (Inr (process_text_file review_lines)) = Inr resp"
    "map r_chunk_id (analysis_results resp) =
       map chunk_id (filter (\<lambda>c. py_strip (text c) \<noteq> []) (process_text_file review_lines))"
    "total_chunks resp = length (filter (\<lambda>c. py_strip (text c) \<noteq> []) (process_text_file review_lines))"
    by blast
  from resp(2) have len: "length (analysis_results resp) =
      length (filter (\<lambda>c. py_strip (text c) \<noteq> []) (process_text_file review_lines))"
    by (metis length_map)
  from resp(1) have "analysis_results resp =
      projr (process_chunks (services flaky_libs) (process_text_file review_lines))"
    by (auto simp: upload_file_def split: sum.splits)
  with g h have "map sentiment (analysis_results resp) = [''positive'', ''neutral'', ''neutral'', ''positive'']"
    "map (\<lambda>r. sr_error (analysis r)) (analysis_results resp) = [None, Some ''boom'', None, None]"
    by simp_all
  moreover from resp(2) f have "map r_chunk_id (analysis_results resp) = [0, 1, 3, 4]" by simp
  moreover have "total_chunks resp = 4"
  proof -
    have "total_chunks resp =
        length (map chunk_id (filter (\<lambda>c. py_strip (text c) \<noteq> []) (process_text_file review_lines)))"
      using resp(3) by simp
    also have "\<dots> = 4" unfolding f by simp
    finally show ?thesis .
  qed
  ultimately show ?thesis using resp(1) by (intro exI[of _ resp]) simp
qed

text \<open>
  C7. When the resolved language of a chunk is not \<open>en\<close> and the translation fails, by
  raising or by returning a result with an \<open>error\<close> key, the chunk is still scored, on its
  original text, and its result has \<open>was_translated = False\<close> and the original text as
  processed text.
\<close>

theorem translation_failure_keeps_original:
  assumes "py_strip (text chunk) \<noteq> []"
    and "resolve_language C chunk = Inr lang" and "lang \<noteq> ''en''"
    and "(\<exists>e. co_translate_text C (text chunk) ''en'' (Some lang) = Inl e) \<or>
         (\<exists>tr. co_translate_text C (text chunk) ''en'' (Some lang) = Inr tr \<and> tr_error tr \<noteq> None)"
    and "co_analyze_sentiment C (text chunk) ''en'' = Inr sr"
  shows "\<exists>r. process_chunk C chunk = Inr (Some r) \<and> was_translated r = False \<and>
           processed_text r = text chunk \<and> original_text r = text chunk \<and>
           analysis r = sr \<and> sentiment r = sr_sentiment sr"
proof -
  from assms(3,4) have "translate_step C (text chunk) lang = (text chunk, False)"
    by (auto simp: translate_step_def)
  with assms(1,2,5) show ?thesis
    by (simp add: process_chunk_def assemble_def)
qed

text \<open>
  The theorem at a Spanish chunk, once with the repository's \<open>translate_text\<close> over a
  translator that raises (it returns the \<open>error\<close> key) and once with a translation call
  that raises itself.
\<close>

theorem translation_failure_keeps_original_witness:
  "(\<exists>r. process_chunk (services flaky_libs) hola_chunk = Inr (Some r) \<and> was_translated r = False \<and>
        processed_text r = ''hola'' \<and> original_text r = ''hola'' \<and> sentiment r = ''positive'') \<and>
   (\<exists>r. process_chunk raising_translation hola_chunk = Inr (Some r) \<and> was_translated r = False \<and>
        processed_text r = ''hola'' \<and> original_text r = ''hola'' \<and> sentiment r = ''positive'')"
proof -
  define sr where "sr = \<lparr>sr_sentiment = ''positive'', sr_score = 3 / 4, sr_polarity = 1 / 2,
     sr_subjectivity = 1 / 4, sr_language = ''en'', sr_word_count = Some 1,
     sr_char_count = Some 4, sr_error = None\<rparr>"
  have t: "text hola_chunk = ''hola''" by (simp add: hola_chunk_def)
  have a: "py_strip (text hola_chunk) \<noteq> []" by code_simp
  have b1: "resolve_language (services flaky_libs) hola_chunk = Inr ''es''" by code_simp
  have b2: "resolve_language raising_translation hola_chunk = Inr ''es''" by code_simp
  have c: "''es'' \<noteq> ''en''" by simp
  have "translate flaky_libs (translator_source (Some ''es'')) ''en'' ''hola'' = Inl (Exception ''timed out'')"
    by code_simp
  from translate_text_error[OF this]
  have d1: "(\<exists>e. co_translate_text (services flaky_libs) (text hola_chunk) ''en'' (Some ''es'') = Inl e) \<or>
      (\<exists>tr. co_translate_text (services flaky_libs) (text hola_chunk) ''en'' (Some ''es'') = Inr tr \<and>
         tr_error tr \<noteq> None)"
    unfolding t by (auto simp: services_def)
  have d2: "(\<exists>e. co_translate_text raising_translation (text hola_chunk) ''en'' (Some ''es'') = Inl e) \<or>
      (\<exists>tr. co_translate_text raising_translation (text hola_chunk) ''en'' (Some ''es'') = Inr tr \<and>
         tr_error tr \<noteq> None)"
    by (simp add: raising_translation_def)
  have e1: "co_analyze_sentiment (services flaky_libs) (text hola_chunk) ''en'' = Inr sr"
    unfolding sr_def by code_simp
  have e2: "co_analyze_sentiment raising_translation (text hola_chunk) ''en'' = Inr sr"
    unfolding sr_def by code_simp
  have l: "sr_sentiment sr = ''positive''" by (simp add: sr_def)
  from translation_failure_keeps_original[OF a b1 c d1 e1]
  have 1: "\<exists>r. process_chunk (services flaky_libs) hola_chunk = Inr (Some r) \<and>
      was_translated r = False \<and> processed_text r = ''hola'' \<and> original_text r = ''hola'' \<and>
      sentiment r = ''positive''"
    unfolding t l by blast
  from translation_failure_keeps_original[OF a b2 c d2 e2]
  have 2: "\<exists>r. process_chunk raising_translation hola_chunk = Inr (Some r) \<and>
      was_translated r = False \<and> processed_text r = ''hola'' \<and> original_text r = ''hola'' \<and>
      sentiment r = ''positive''"
    unfolding t l by blast
  from 1 2 show ?thesis by (rule conjI)
qed

section \<open>The summary\<close>

lemma summary_agrees:
  "s_translations_performed (generate_summary rs) = length (filter was_translated rs) \<and>
   s_languages_detected (generate_summary rs) = set (map detected_language rs) \<and>
   total_reviews_analyzed (generate_summary rs) = length rs"
  by (cases "rs = []") (simp_all add: generate_summary_def Let_def)

text \<open>
  C9. In the response of a completed upload the translation count, the set of detected
  languages and the number of chunks are those of the summary.
\<close>

theorem response_agrees_with_summary:
  "upload_file L name chunking = Inr resp \<Longrightarrow>
     translations_performed resp = s_translations_performed (summary resp) \<and>
     languages_detected resp = s_languages_detected (summary resp) \<and>
     total_chunks resp = total_reviews_analyzed (summary resp)"
  using summary_agrees
  by (auto simp: upload_file_def split: sum.splits)

text \<open>The theorem at the file of five lines, where one review is translated.\<close>

theorem response_agrees_with_summary_witness:
  "\<exists>resp. upload_file flaky_libs ''reviews.txt'' (Inr (process_text_file review_lines)) = Inr resp \<and>
     translations_performed resp = 1 \<and> s_translations_performed (summary resp) = 1 \<and>
     languages_detected resp = {''es'', ''en'', ''fr''} \<and>
     s_languages_detected (summary resp) = {''es'', ''en'', ''fr''} \<and>
     total_chunks resp = 4 \<and> total_reviews_analyzed (summary resp) = 4"
proof -
  obtain resp where resp:
    "upload_file flaky_libs ''reviews.txt'' (Inr (process_text_file review_lines)) = Inr resp"
    using upload_file_returns by blast
  then have rs: "analysis_results resp =
      projr (process_chunks (services flaky_libs) (process_text_file review_lines))"
    and tp: "translations_performed resp = length (filter was_translated (analysis_results resp))"
    and ld: "languages_detected resp = set (map detected_language (analysis_results resp))"
    and tc: "total_chunks resp = length (analysis_results resp)"
    by (auto simp: upload_file_def split: sum.splits)
  have "map was_translated (projr (process_chunks (services flaky_libs) (process_text_file review_lines)))
      = [False, False, True, False]" by code_simp
  then have w: "map was_translated (analysis_results resp) = [False, False, True, False]"
    by (simp add: rs)
  have "map detected_language (projr (process_chunks (services flaky_libs) (process_text_file review_lines)))
      = [''es'', ''en'', ''fr'', ''en'']" by code_simp
  then have l: "map detected_language (analysis_results resp) = [''es'', ''en'', ''fr'', ''en'']"
    by (simp add: rs)
  have "length (filter was_translated (analysis_results resp)) =
      length (filter id (map was_translated (analysis_results resp)))"
    by (simp add: filter_map comp_def)
  with w tp have 1: "translations_performed resp = 1" by simp
  from l ld have 2: "languages_detected resp = {''es'', ''en'', ''fr''}" by auto
  from w have "length (map was_translated (analysis_results resp)) = 4" by simp
  with tc have 3: "total_chunks resp = 4" by simp
  from response_agrees_with_summary[OF resp] 1 2 3 resp show ?thesis by (intro exI[of _ resp]) simp
qed

section \<open>Floats\<close>

lemma round_half_even_close: "\<bar>of_int (round_half_even x) - x\<bar> \<le> 1 / 2"
proof -
  have lo: "of_int \<lfloor>x\<rfloor> \<le> x" by simp
  have hi: "x < of_int \<lfloor>x\<rfloor> + 1" by linarith
  show ?thesis
    unfolding round_half_even_def Let_def using lo hi
    by (auto simp: abs_le_iff)
qed

lemma round_half_even_nonneg: "0 \<le> x \<Longrightarrow> 0 \<le> round_half_even x"
proof -
  assume "0 \<le> x"
  then have "0 \<le> \<lfloor>x\<rfloor>" by simp
  then show ?thesis by (auto simp: round_half_even_def Let_def)
qed

text \<open>\<open>floor_log2\<close> is the binary exponent of a positive number.\<close>

lemma floor_log2_bounds:
  assumes "0 < x"
  shows "2 powi floor_log2 x \<le> x" and "x < 2 powi (floor_log2 x + 1)"
proof -
  obtain p q where pq: "quotient_of x = (p, q)" by (cases "quotient_of x")
  then have q: "0 < q" and x: "x = of_int p / of_int q"
    by (simp_all add: quotient_of_denom_pos quotient_of_div)
  from assms x q have p: "0 < p" by (simp add: zero_less_divide_iff)
  define bp bq where "bp = bitlen p" and "bq = bitlen q"
  from bitlen_bounds[OF p] have bp: "2 ^ nat (bp - 1) \<le> p" "p < 2 ^ nat bp"
    by (simp_all add: bp_def)
  from bitlen_bounds[OF q] have bq: "2 ^ nat (bq - 1) \<le> q" "q < 2 ^ nat bq"
    by (simp_all add: bq_def)
  from p have bp1: "1 \<le> bp" by (auto simp: bp_def bitlen_alt_def)
  from q have bq1: "1 \<le> bq" by (auto simp: bq_def bitlen_alt_def)
  have P: "(2::rat) ^ nat (bp - 1) \<le> of_int p" "of_int p < (2::rat) ^ nat bp"
    using bp by (metis of_int_le_iff of_int_numeral of_int_power,
        metis of_int_less_iff of_int_numeral of_int_power)
  have Q: "(2::rat) ^ nat (bq - 1) \<le> of_int q" "of_int q < (2::rat) ^ nat bq"
    using bq by (metis of_int_le_iff of_int_numeral of_int_power,
        metis of_int_less_iff of_int_numeral of_int_power)
  have qpos: "(0::rat) < of_int q" using q by simp
  have low: "(2::rat) powi (bp - bq - 1) \<le> x"
  proof -
    have "(2::rat) powi (bp - bq - 1) = 2 powi ((bp - 1) - bq)" by (simp add: algebra_simps)
    also have "\<dots> = 2 powi (bp - 1) / 2 powi bq" by (rule power_int_diff) simp
    also have "\<dots> = 2 ^ nat (bp - 1) / 2 ^ nat bq"
      using bp1 bq1 by (simp add: power_int_def)
    also have "\<dots> \<le> of_int p / of_int q"
      using P(1) Q(2) qpos p by (intro frac_le) simp_all
    finally show ?thesis by (simp add: x)
  qed
  have high: "x < (2::rat) powi (bp - bq + 1)"
  proof -
    have "x = of_int p / of_int q" by (rule x)
    also have "\<dots> < 2 ^ nat bp / 2 ^ nat (bq - 1)"
      using P(2) Q(1) qpos p by (intro frac_less) simp_all
    also have "\<dots> = 2 powi bp / 2 powi (bq - 1)"
      using bp1 bq1 by (simp add: power_int_def)
    also have "\<dots> = 2 powi (bp - (bq - 1))" by (rule power_int_diff[symmetric]) simp
    also have "\<dots> = 2 powi (bp - bq + 1)" by (simp add: algebra_simps)
    finally show ?thesis .
  qed
  have fl2: "floor_log2 x = (if 2 powi (bp - bq) \<le> x then bp - bq else bp - bq - 1)"
    by (simp add: floor_log2_def pq bp_def bq_def Let_def)
  show "2 powi floor_log2 x \<le> x" using low by (simp add: fl2)
  show "x < 2 powi (floor_log2 x + 1)" using high by (auto simp: fl2 not_le)
qed

lemma fl_pos:
  assumes "0 < x"
  shows "fl x = of_int (round_half_even (x / 2 powi (max (floor_log2 x) (- 1022) - 52))) *
                2 powi (max (floor_log2 x) (- 1022) - 52)"
  using assms by (simp add: fl_def Let_def)

lemma fl_nonneg: "0 \<le> x \<Longrightarrow> 0 \<le> fl x"
proof (cases "x = 0")
  case True
  then show ?thesis by (simp add: fl_def)
next
  case False
  assume "0 \<le> x"
  with False have x: "0 < x" by simp
  have u: "(0::rat) < 2 powi (max (floor_log2 x) (- 1022) - 52)" by simp
  then have "0 \<le> x / 2 powi (max (floor_log2 x) (- 1022) - 52)" using x by simp
  from round_half_even_nonneg[OF this] u show ?thesis
    unfolding fl_pos[OF x] by simp
qed

text \<open>
  The error of rounding to a float: half a unit in the last place, which is at most the
  number times \<open>2 ^ -53\<close>, or \<open>2 ^ -1075\<close> for the smallest numbers.
\<close>

lemma fl_error:
  assumes "0 \<le> x"
  shows "\<bar>fl x - x\<bar> \<le> x / 2 ^ 53 + 1 / 2 ^ 1075"
proof (cases "x = 0")
  case True
  then show ?thesis by (simp add: fl_def)
next
  case False
  with assms have x: "0 < x" by simp
  define e where "e = max (floor_log2 x) (- 1022)"
  define ulp :: rat where "ulp = 2 powi (e - 52)"
  have u: "0 < ulp" by (simp add: ulp_def)
  have f: "fl x = of_int (round_half_even (x / ulp)) * ulp"
    unfolding fl_pos[OF x] ulp_def e_def ..
  have "\<bar>of_int (round_half_even (x / ulp)) - x / ulp\<bar> \<le> 1 / 2"
    by (rule round_half_even_close)
  then have "\<bar>of_int (round_half_even (x / ulp)) - x / ulp\<bar> * ulp \<le> 1 / 2 * ulp"
    using u by (intro mult_right_mono) simp_all
  moreover have "\<bar>of_int (round_half_even (x / ulp)) - x / ulp\<bar> * ulp =
      \<bar>of_int (round_half_even (x / ulp)) * ulp - x\<bar>"
  proof -
    have "\<bar>of_int (round_half_even (x / ulp)) - x / ulp\<bar> * ulp =
        \<bar>(of_int (round_half_even (x / ulp)) - x / ulp) * ulp\<bar>"
      using u by (simp add: abs_mult)
    also have "(of_int (round_half_even (x / ulp)) - x / ulp) * ulp =
        of_int (round_half_even (x / ulp)) * ulp - x"
      using u by (simp add: algebra_simps)
    finally show ?thesis .
  qed
  ultimately have half: "\<bar>fl x - x\<bar> \<le> ulp / 2" unfolding f by simp
  have "ulp / 2 \<le> x / 2 ^ 53 + 1 / 2 ^ 1075"
  proof (cases "- 1022 \<le> floor_log2 x")
    case True
    then have "e = floor_log2 x" by (simp add: e_def)
    then have "ulp = 2 powi (floor_log2 x - 52)" by (simp add: ulp_def)
    also have "\<dots> = 2 powi floor_log2 x / 2 powi 52" by (rule power_int_diff) simp
    finally have "ulp = 2 powi floor_log2 x / 2 ^ 52" by (simp add: power_int_def)
    also have "\<dots> \<le> x / 2 ^ 52"
      using floor_log2_bounds(1)[OF x] by (simp add: divide_right_mono)
    finally have "ulp / 2 \<le> x / 2 ^ 52 / 2" by simp
    also have "\<dots> = x / 2 ^ 53" by simp
    finally show ?thesis by simp
  next
    case False
    then have "e = - 1022" by (simp add: e_def)
    then have "ulp = 2 powi (- 1074)" by (simp add: ulp_def)
    also have "\<dots> = 1 / 2 ^ 1074"
      by (simp add: power_int_def inverse_eq_divide power_one_over)
    finally have "ulp / 2 = 1 / 2 ^ 1075" by simp
    then show ?thesis using x by simp
  qed
  with half show ?thesis by linarith
qed

lemma fl_close:
  assumes "0 \<le> x"
  shows "\<bar>fl x - x\<bar> \<le> (x + 1) / 2 ^ 53"
proof -
  have "(1::rat) / 2 ^ 1075 \<le> 1 / 2 ^ 53"
    by (intro divide_left_mono power_increasing) simp_all
  with fl_error[OF assms] show ?thesis by (simp add: add_divide_distrib)
qed

lemma fl_close_bounded:
  assumes "0 \<le> x" and "x \<le> 200"
  shows "\<bar>fl x - x\<bar> \<le> 1 / 40000000000000"
proof -
  have "(x + 1) / 2 ^ 53 \<le> 201 / 2 ^ 53" using assms(2) by (simp add: divide_right_mono)
  also have "\<dots> \<le> 1 / 40000000000000" by simp
  finally show ?thesis using fl_close[OF assms(1)] by linarith
qed

lemma fl_close_unit:
  assumes "0 \<le> x" and "x \<le> 1"
  shows "\<bar>fl x - x\<bar> \<le> 1 / 4000000000000000"
proof -
  have "(x + 1) / 2 ^ 53 \<le> 2 / 2 ^ 53" using assms(2) by (simp add: divide_right_mono)
  also have "\<dots> \<le> 1 / 4000000000000000" by simp
  finally show ?thesis using fl_close[OF assms(1)] by linarith
qed

section \<open>Percentages\<close>

lemma tally_count_step: "tally (count_step sc r) = tally sc + (if recognised r then 1 else 0)"
  by (simp add: count_step_def tally_def recognised_def Let_def)

lemma tally_foldl:
  "tally (foldl count_step sc rs) = tally sc + length (filter recognised rs)"
  by (induction rs arbitrary: sc) (simp_all add: tally_count_step)

text \<open>
  A percentage is the float nearest to a number of tenths, and the number of tenths is
  within a half (and the float error of the division and the multiplication) of the
  exact one.
\<close>

lemma percentage_close:
  assumes "0 < n" and "c \<le> n"
  shows "\<exists>k::int. percentage c n = fl (of_int k / 10) \<and> 0 \<le> k \<and> k \<le> 1000 \<and>
           \<bar>of_int k - 1000 * of_nat c / of_nat n\<bar> \<le> (1 / 2 + 1 / 1000000000000 :: rat)"
proof -
  define x :: rat where "x = of_nat c / of_nat n"
  define y where "y = fl x"
  define z where "z = fl (y * 100)"
  define k where "k = round_half_even (z * 10 ^ 1)"
  have x0: "0 \<le> x" by (simp add: x_def)
  have x1: "x \<le> 1" using assms by (simp add: x_def)
  have y0: "0 \<le> y" unfolding y_def using x0 by (rule fl_nonneg)
  have yx: "\<bar>y - x\<bar> \<le> 1 / 4000000000000000"
    unfolding y_def using x0 x1 by (rule fl_close_unit)
  have y2: "y \<le> 2" using yx x1 by linarith
  have y100: "0 \<le> y * 100" using y0 by simp
  have z0: "0 \<le> z" unfolding z_def using y100 by (rule fl_nonneg)
  have zy: "\<bar>z - y * 100\<bar> \<le> 1 / 40000000000000"
    unfolding z_def using y100 y2 by (intro fl_close_bounded) simp_all
  have kz: "\<bar>of_int k - z * 10\<bar> \<le> 1 / 2"
    using round_half_even_close[of "z * 10 ^ 1"] by (simp add: k_def)
  have k0: "0 \<le> k" unfolding k_def using z0 by (intro round_half_even_nonneg) simp
  have close: "\<bar>of_int k - 1000 * x\<bar> \<le> 1 / 2 + 1 / 1000000000000"
    using kz zy yx by linarith
  have "of_int k < (1001 :: rat)" using close x1 by linarith
  then have "of_int k < (of_int 1001 :: rat)" by simp
  then have "k < 1001" by (simp only: of_int_less_iff)
  then have k1: "k \<le> 1000" by simp
  have "percentage c n = fl (of_int k / 10)"
    by (simp add: percentage_def py_round_def k_def z_def y_def x_def)
  with k0 k1 close show ?thesis unfolding x_def by auto
qed

text \<open>
  Three percentages of counts that add up to the whole: their numbers of tenths add up to
  999, 1000 or 1001, and each percentage is within the float error of its tenths.
\<close>

lemma three_percentages_sum:
  assumes "0 < n" and "a + b + c = n"
  shows "\<bar>percentage a n + percentage b n + percentage c n - 100\<bar> \<le> 1 / 10 + 1 / 10 ^ 13"
proof -
  from assms(2) have le: "a \<le> n" "b \<le> n" "c \<le> n" by simp_all
  obtain ka where ka: "percentage a n = fl (of_int ka / 10)" "0 \<le> ka" "ka \<le> 1000"
    "\<bar>of_int ka - 1000 * of_nat a / of_nat n\<bar> \<le> (1 / 2 + 1 / 1000000000000 :: rat)"
    using percentage_close[OF assms(1) le(1)] by blast
  obtain kb where kb: "percentage b n = fl (of_int kb / 10)" "0 \<le> kb" "kb \<le> 1000"
    "\<bar>of_int kb - 1000 * of_nat b / of_nat n\<bar> \<le> (1 / 2 + 1 / 1000000000000 :: rat)"
    using percentage_close[OF assms(1) le(2)] by blast
  obtain kc where kc: "percentage c n = fl (of_int kc / 10)" "0 \<le> kc" "kc \<le> 1000"
    "\<bar>of_int kc - 1000 * of_nat c / of_nat n\<bar> \<le> (1 / 2 + 1 / 1000000000000 :: rat)"
    using percentage_close[OF assms(1) le(3)] by blast
  have "(of_nat a + of_nat b + of_nat c :: rat) = of_nat n"
    using assms(2) by (metis of_nat_add)
  then have total: "1000 * of_nat a / of_nat n + 1000 * of_nat b / of_nat n
      + 1000 * of_nat c / of_nat n = (1000 :: rat)"
    using assms(1) by (simp add: field_simps)
  define xa xb xc :: rat where "xa = 1000 * of_nat a / of_nat n"
    and "xb = 1000 * of_nat b / of_nat n" and "xc = 1000 * of_nat c / of_nat n"
  have close: "\<bar>of_int ka - xa\<bar> \<le> 1 / 2 + 1 / 1000000000000"
    "\<bar>of_int kb - xb\<bar> \<le> 1 / 2 + 1 / 1000000000000"
    "\<bar>of_int kc - xc\<bar> \<le> 1 / 2 + 1 / 1000000000000" "xa + xb + xc = 1000"
    using ka(4) kb(4) kc(4) total by (simp_all only: xa_def xb_def xc_def)
  have "\<bar>(of_int ka + of_int kb + of_int kc :: rat) - 1000\<bar> < 2"
    using close by linarith
  then have "\<bar>(of_int (ka + kb + kc - 1000) :: rat)\<bar> < of_int 2" by simp
  then have "\<bar>ka + kb + kc - 1000\<bar> < 2"
    by (metis of_int_abs of_int_less_iff)
  then have "\<bar>ka + kb + kc - 1000\<bar> \<le> 1" by simp
  then have "\<bar>(of_int (ka + kb + kc - 1000) :: rat)\<bar> \<le> 1"
    by (metis of_int_abs of_int_le_iff of_int_1)
  then have "\<bar>(of_int ka + of_int kb + of_int kc :: rat) - 1000\<bar> \<le> 1" by simp
  then have tenths:
    "\<bar>(of_int ka / 10 + of_int kb / 10 + of_int kc / 10 :: rat) - 100\<bar> \<le> 1 / 10"
    by linarith
  have rep: "\<bar>fl (of_int k / 10) - of_int k / 10\<bar> \<le> 1 / 40000000000000"
    if "0 \<le> k" "k \<le> 1000" for k :: int
  proof -
    have k0: "(0::rat) \<le> of_int k / 10" using that(1) by simp
    have "(of_int k :: rat) \<le> of_int 1000" using that(2) by (simp only: of_int_le_iff)
    then have k1: "(of_int k :: rat) / 10 \<le> 200" by simp
    from k0 k1 show ?thesis by (rule fl_close_bounded)
  qed
  have e: "(1::rat) / 10 ^ 13 = 1 / 10000000000000" by simp
  from rep[OF ka(2,3)] rep[OF kb(2,3)] rep[OF kc(2,3)] tenths show ?thesis
    unfolding ka(1) kb(1) kc(1) e by linarith
qed

lemma generate_summary_percentages:
  assumes "rs \<noteq> []" and "list_all recognised rs"
  shows "\<exists>p. sentiment_percentages (generate_summary rs) = Some p \<and>
              \<bar>pct_positive p + pct_neutral p + pct_negative p - 100\<bar> \<le> 1 / 10 + 1 / 10 ^ 13"
proof -
  define counts where "counts = foldl count_step \<lparr>positive = 0, neutral = 0, negative = 0\<rparr> rs"
  from assms(2) have "filter recognised rs = rs" by (simp add: list_all_iff)
  then have "tally counts = length rs"
    unfolding counts_def using tally_foldl[of "\<lparr>positive = 0, neutral = 0, negative = 0\<rparr>" rs]
    by (simp add: tally_def)
  then have sum: "positive counts + neutral counts + negative counts = length rs"
    by (simp add: tally_def)
  from assms(1) have pos: "0 < length rs" by simp
  from three_percentages_sum[OF pos sum] assms(1) show ?thesis
    by (simp add: generate_summary_def Let_def counts_def)
qed

lemma py_lower_labels:
  "py_lower ''positive'' = ''positive''" "py_lower ''neutral'' = ''neutral''"
  "py_lower ''negative'' = ''negative''"
  by (simp_all add: py_lower_def lower_char_def)

lemma scored_by_recognised: "scored_by L r \<Longrightarrow> recognised r"
  using analyze_sentiment_label[of L "processed_text r" "''en''" "analysis r"]
  by (auto simp: scored_by_def recognised_def py_lower_labels)

text \<open>
  C8, as the claim states it, fails. For a file of three reviews, one scored positive, one
  neutral and one negative, each percentage is the float \<open>33.3\<close>, which is a little less
  than 333 tenths; the three add up to less than \<open>99.9\<close>, whether they are added exactly
  or as floats, and so are more than \<open>0.1\<close> away from 100.
\<close>

theorem three_labels_sum_outside_tolerance:
  "map_sum id (\<lambda>resp. sentiment_percentages (summary resp))
     (upload_file flaky_libs ''reviews.txt'' (Inr (process_text_file three_reviews))) =
     Inr (Some \<lparr>pct_positive = 2343279181116211 / 70368744177664,
                pct_neutral = 2343279181116211 / 70368744177664,
                pct_negative = 2343279181116211 / 70368744177664\<rparr>) \<and>
   (2343279181116211 / 70368744177664 :: rat) < 333 / 10 \<and>
   1 / 10 < \<bar>(2343279181116211 / 70368744177664 + 2343279181116211 / 70368744177664 +
              2343279181116211 / 70368744177664 :: rat) - 100\<bar> \<and>
   1 / 10 < \<bar>fl (fl (2343279181116211 / 70368744177664 + 2343279181116211 / 70368744177664) +
                 2343279181116211 / 70368744177664) - 100\<bar>"
  by code_simp

text \<open>
  C8, amended. For every upload that completes with at least one result, the summary has
  the three percentages, and their sum differs from 100 by at most one tenth and the
  error of the binary representation of the three floats, which is below \<open>10 ^ -13\<close>.
\<close>

theorem percentages_sum_to_100:
  assumes "upload_file L name chunking = Inr resp" and "analysis_results resp \<noteq> []"
  shows "\<exists>p. sentiment_percentages (summary resp) = Some p \<and>
              \<bar>pct_positive p + pct_neutral p + pct_negative p - 100\<bar> \<le> 1 / 10 + 1 / 10 ^ 13"
proof -
  from assms(1) obtain chunk_list rs where
    c: "chunking = Inr chunk_list" and rs: "process_chunks (services L) chunk_list = Inr rs"
    and resp: "analysis_results resp = rs" "summary resp = generate_summary rs"
    by (auto simp: upload_file_def split: sum.splits)
  from process_chunks_services[of L chunk_list] rs have "list_all (scored_by L) rs" by simp
  then have "list_all recognised rs" by (auto simp: list_all_iff intro: scored_by_recognised)
  with assms(2) resp generate_summary_percentages[of rs] show ?thesis by simp
qed

text \<open>The theorem at the file of three reviews, where the sum is outside one tenth.\<close>

theorem percentages_sum_to_100_witness:
  "\<exists>resp. upload_file flaky_libs ''reviews.txt'' (Inr (process_text_file three_reviews)) = Inr resp \<and>
     analysis_results resp \<noteq> [] \<and>
     sentiment_percentages (summary resp) =
       Some \<lparr>pct_positive = 2343279181116211 / 70368744177664,
             pct_neutral = 2343279181116211 / 70368744177664,
             pct_negative = 2343279181116211 / 70368744177664\<rparr> \<and>
     (\<exists>p. sentiment_percentages (summary resp) = Some p \<and>
          \<bar>pct_positive p + pct_neutral p + pct_negative p - 100\<bar> \<le> 1 / 10 + 1 / 10 ^ 13)"
proof -
  obtain resp where resp:
    "upload_file flaky_libs ''reviews.txt'' (Inr (process_text_file three_reviews)) = Inr resp"
    "map r_chunk_id (analysis_results resp) =
       map chunk_id (filter (\<lambda>c. py_strip (text c) \<noteq> []) (process_text_file three_reviews))"
    using upload_file_returns by blast
  have "map chunk_id (filter (\<lambda>c. py_strip (text c) \<noteq> []) (process_text_file three_reviews))
      = [0, 1, 2]" by code_simp
  with resp(2) have ne: "analysis_results resp \<noteq> []" by auto
  from resp(1) have "summary resp =
      generate_summary (projr (process_chunks (services flaky_libs) (process_text_file three_reviews)))"
    by (auto simp: upload_file_def split: sum.splits)
  moreover have "sentiment_percentages
      (generate_summary (projr (process_chunks (services flaky_libs) (process_text_file three_reviews))))
      = Some \<lparr>pct_positive = 2343279181116211 / 70368744177664,
              pct_neutral = 2343279181116211 / 70368744177664,
              pct_negative = 2343279181116211 / 70368744177664\<rparr>" by code_simp
  ultimately have p: "sentiment_percentages (summary resp) =
       Some \<lparr>pct_positive = 2343279181116211 / 70368744177664,
             pct_neutral = 2343279181116211 / 70368744177664,
             pct_negative = 2343279181116211 / 70368744177664\<rparr>" by simp
  from percentages_sum_to_100[OF resp(1) ne] have
    "\<exists>p. sentiment_percentages (summary resp) = Some p \<and>
          \<bar>pct_positive p + pct_neutral p + pct_negative p - 100\<bar> \<le> 1 / 10 + 1 / 10 ^ 13" .
  with resp(1) ne p show ?thesis by (intro exI[of _ resp] conjI)
qed

end
